theory Spec2Isabelle
  imports Complex_Main
begin

section \<open>Common values\<close>

text \<open>
  Exceptions of the Python code are values.  \<open>HTTPException\<close> carries the status code and
  the detail message, as in FastAPI; the other constructors stand for the exception
  classes the backend raises or lets escape.
\<close>

datatype exn =
    HTTPException nat string
  | RuntimeError string
  | JWTError
  | IsADirectoryError
  | ValueError string
  | TypeError string
  | OSError string
  | IndexError
  | OtherError string

type_synonym bytes = string

text \<open>
  A Python \<open>float\<close> is an IEEE 754 double: a finite number, an infinity or NaN.  A finite
  double is modelled by the real number it stands for, and every arithmetic operation
  rounds its exact result to the nearest double, a tie going to the even significand
  (53 bits; the exponent range is not limited, which no value below comes near).  The
  three special values are kept because the value a loaded network returns is not under
  the control of the backend.  Every comparison with NaN is false.
\<close>

datatype pyfloat = Finite real | PosInf | NegInf | NaN

fun py_lt :: "pyfloat \<Rightarrow> pyfloat \<Rightarrow> bool" where
  "py_lt NaN _ = False"
| "py_lt _ NaN = False"
| "py_lt (Finite a) (Finite b) = (a < b)"
| "py_lt (Finite a) PosInf = True"
| "py_lt (Finite a) NegInf = False"
| "py_lt PosInf _ = False"
| "py_lt NegInf NegInf = False"
| "py_lt NegInf _ = True"

fun py_ge :: "pyfloat \<Rightarrow> pyfloat \<Rightarrow> bool" where
  "py_ge NaN _ = False"
| "py_ge _ NaN = False"
| "py_ge a b = (\<not> py_lt a b)"

text \<open>
  The builtins \<open>min(a, b)\<close> and \<open>max(a, b)\<close> keep the first argument unless the second one
  is strictly smaller (strictly greater).
\<close>

definition py_min :: "pyfloat \<Rightarrow> pyfloat \<Rightarrow> pyfloat" where
  "py_min a b = (if py_lt b a then b else a)"

definition py_max :: "pyfloat \<Rightarrow> pyfloat \<Rightarrow> pyfloat" where
  "py_max a b = (if py_lt a b then b else a)"

text \<open>Rounding a real to the nearest integer, a tie going to the even one.\<close>

definition round_half_even :: "real \<Rightarrow> int" where
  "round_half_even y =
     (let f = \<lfloor>y\<rfloor>; d = y - of_int f
      in if d < 1 / 2 then f
         else if 1 / 2 < d then f + 1
         else if even f then f else f + 1)"

text \<open>
  The double nearest to a real: the significand is the real scaled into
  \<open>[2^52, 2^53)\<close> and rounded to an integer.
\<close>

definition round_to_double :: "real \<Rightarrow> real" where
  "round_to_double x =
     (if x = 0 then 0
      else let e = \<lfloor>log 2 \<bar>x\<bar>\<rfloor> - 52
           in of_int (round_half_even (x / 2 powi e)) * 2 powi e)"

definition float_add :: "real \<Rightarrow> real \<Rightarrow> real" where
  "float_add a b = round_to_double (a + b)"

definition float_mul :: "real \<Rightarrow> real \<Rightarrow> real" where
  "float_mul a b = round_to_double (a * b)"

definition float_div :: "real \<Rightarrow> real \<Rightarrow> real" where
  "float_div a b = round_to_double (a / b)"

text \<open>
  \<open>round(x, nd)\<close> on a finite float: the exact value of \<open>x\<close> is rounded to the nearest
  multiple of \<open>10 ^ -nd\<close>, a tie going to the even neighbour, and the result is the double
  nearest to that decimal.
\<close>

definition py_round :: "real \<Rightarrow> nat \<Rightarrow> real" where
  "py_round x nd = round_to_double (of_int (round_half_even (x * 10 ^ nd)) / 10 ^ nd)"

text \<open>\<open>str.lower()\<close> and \<open>str.endswith\<close>, on ASCII text.\<close>

definition lower_char :: "char \<Rightarrow> char" where
  "lower_char c =
     (let n = (of_char c :: nat)
      in if 65 \<le> n \<and> n \<le> 90 then char_of (n + 32) else c)"

definition lower :: "string \<Rightarrow> string" where
  "lower s = map lower_char s"

definition endswith :: "string \<Rightarrow> string \<Rightarrow> bool" where
  "endswith s suf = (length suf \<le> length s \<and> drop (length s - length suf) s = suf)"

section \<open>model.py: the model service\<close>

text \<open>
  A Pillow image: its mode (\<open>L\<close>, \<open>LA\<close>, \<open>RGB\<close>, \<open>RGBA\<close>), its size as
  (width, height), and its samples in row-major order, one per band of each pixel.  A
  loaded TorchScript artifact is the function from an image to what \<open>float(outputs)\<close>
  yields (preprocessing, the forward pass and the conversion to a float taken together);
  it may raise.
\<close>

datatype image = Image string "nat \<times> nat" "nat list"

datatype model_obj = Simulate | TorchModel "image \<Rightarrow> exn + pyfloat"

record model_service =
  backend :: string
  model_path :: "string option"
  device :: string
  model :: "model_obj option"
  loaded :: bool

text \<open>What the process environment offers to the model service.\<close>

record model_env =
  environ :: "string \<rightharpoonup> string"
  torch_available :: bool
  path_exists :: "string \<Rightarrow> bool"
  jit_load :: "string \<Rightarrow> string \<Rightarrow> exn + (image \<Rightarrow> exn + pyfloat)"

definition environ_get :: "model_env \<Rightarrow> string \<Rightarrow> string \<Rightarrow> string" where
  "environ_get env k dflt = (case environ env k of None \<Rightarrow> dflt | Some v \<Rightarrow> v)"

text \<open>
  \<open>ModelService._load\<close>.  In the \<open>.pt\<close>/\<open>.pth\<close> branch a failed \<open>torch.jit.load\<close> is tried
  a second time; every failure leaves the service unloaded and raises \<open>RuntimeError\<close>.
\<close>

definition load :: "model_env \<Rightarrow> model_service \<Rightarrow> exn + model_service" where
  "load env ms =
     (if backend ms = ''torch'' then
        if \<not> torch_available env then
          Inl (RuntimeError ''PyTorch not available but ONCOSCAN_MODEL_BACKEND=torch'')
        else
          (case model_path ms of
             None \<Rightarrow> Inl (RuntimeError ''Model path not found for torch backend; set ONCOSCAN_MODEL_PATH'')
           | Some p \<Rightarrow>
               if p = [] \<or> \<not> path_exists env p then
                 Inl (RuntimeError ''Model path not found for torch backend; set ONCOSCAN_MODEL_PATH'')
               else
                 (case (if endswith p ''.pt'' \<or> endswith p ''.pth''
                        then (case jit_load env p (device ms) of
                                Inr m \<Rightarrow> Inr m
                              | Inl _ \<Rightarrow> jit_load env p (device ms))
                        else jit_load env p (device ms)) of
                    Inl _ \<Rightarrow> Inl (RuntimeError ''Failed to load torch model'')
                  | Inr m \<Rightarrow> Inr (ms\<lparr>model := Some (TorchModel m), loaded := True\<rparr>)))
      else Inr (ms\<lparr>model := Some Simulate, loaded := True\<rparr>))"

text \<open>\<open>ModelService.__init__\<close>: read the configuration, then load.\<close>

definition ModelService :: "model_env \<Rightarrow> exn + model_service" where
  "ModelService env =
     load env \<lparr>backend = lower (environ_get env ''ONCOSCAN_MODEL_BACKEND'' ''simulate''),
               model_path = environ env ''ONCOSCAN_MODEL_PATH'',
               device = environ_get env ''ONCOSCAN_MODEL_DEVICE'' ''cpu'',
               model = None,
               loaded = False\<rparr>"

record model_status =
  st_backend :: string
  st_loaded :: bool
  st_model_path :: "string option"
  st_device :: "string option"

definition status :: "model_service \<Rightarrow> model_status" where
  "status ms =
     \<lparr>st_backend = backend ms,
      st_loaded = loaded ms,
      st_model_path = model_path ms,
      st_device = (if backend ms = ''torch'' then Some (device ms) else None)\<rparr>"

text \<open>
  \<open>ModelService.reload\<close> returns the outcome together with the service as it is left:
  when loading raises, the service stays unloaded with no model.
\<close>

definition reload :: "model_env \<Rightarrow> model_service \<Rightarrow> (exn + model_status) \<times> model_service" where
  "reload env ms =
     (let ms0 = ms\<lparr>loaded := False, model := None\<rparr>
      in case load env ms0 of
           Inl e \<Rightarrow> (Inl e, ms0)
         | Inr ms1 \<Rightarrow> (Inr (status ms1), ms1))"

record prediction =
  probability :: pyfloat
  primary_finding :: string

text \<open>
  \<open>ModelService.predict\<close>.  \<open>base\<close> is the value drawn by \<open>random.random()\<close>; the
  literals \<open>0.3\<close> and \<open>0.4\<close> are the doubles nearest to them.  The
  simulated delay only passes time and is left out.  With the torch backend the stored
  model is the loaded artifact; a service that is loaded always holds the model of its
  backend.
\<close>

definition predict :: "model_service \<Rightarrow> real \<Rightarrow> image \<Rightarrow> exn + prediction" where
  "predict ms base img =
     (if \<not> loaded ms then Inl (RuntimeError ''Model not loaded'')
      else
        case (if backend ms = ''torch'' then
                (case model ms of
                   Some (TorchModel run) \<Rightarrow>
                     (case run img of
                        Inl e \<Rightarrow> Inl e
                      | Inr out \<Rightarrow> Inr (py_max (Finite 0) (py_min (Finite 1) out)))
                 | _ \<Rightarrow> Inl (OtherError ''model is not callable''))
              else Inr (Finite (py_round (float_add (round_to_double (3 / 10))
                                            (float_mul (round_to_double (4 / 10)) base)) 4))) of
          Inl e \<Rightarrow> Inl e
        | Inr prob \<Rightarrow>
            Inr \<lparr>probability = prob,
                 primary_finding =
                   (if py_ge prob (Finite (1 / 2)) then ''suspicious lesion''
                    else ''no acute findings'')\<rparr>)"

text \<open>
  \<open>get_model_service\<close>: the process-wide holder is filled on first use.  The result is
  the service, which the caller keeps in the holder; when construction raises, the holder
  stays empty.
\<close>

definition get_model_service ::
  "model_env \<Rightarrow> model_service option \<Rightarrow> exn + model_service" where
  "get_model_service env holder =
     (case holder of
        None \<Rightarrow> ModelService env
      | Some ms \<Rightarrow> Inr ms)"

section \<open>models.py and db.py: the relational store\<close>

text \<open>
  The two tables.  Primary keys are assigned by the database when a row is first committed;
  \<open>created_at\<close> is the clock reading at construction.  The \<open>id\<close> columns are called
  \<open>user_pk\<close> and \<open>company_pk\<close> here.
\<close>

record User =
  user_pk :: nat
  username :: string
  full_name :: "string option"
  role :: string
  disabled :: bool
  password_hash :: string
  created_at :: nat

record CompanyProfile =
  company_pk :: nat
  name :: string
  address :: "string option"
  contact_email :: "string option"
  logo_url :: "string option"
  company_created_at :: nat

record session =
  users :: "User list"
  profiles :: "CompanyProfile list"

definition fresh_pk :: "nat list \<Rightarrow> nat" where
  "fresh_pk pks = Suc (fold max pks 0)"

section \<open>crud.py\<close>

text \<open>\<open>select(...).first()\<close> is the first row of the table that passes the filter.\<close>

definition get_user_by_username :: "session \<Rightarrow> string \<Rightarrow> User option" where
  "get_user_by_username s uname = find (\<lambda>u. username u = uname) (users s)"

text \<open>
  \<open>create_user\<close>: the unique index on \<open>username\<close> makes the commit of a duplicate fail.
\<close>

definition create_user ::
  "nat \<Rightarrow> session \<Rightarrow> string \<Rightarrow> string \<Rightarrow> string \<Rightarrow> string \<Rightarrow> (exn + User) \<times> session" where
  "create_user now s uname pw_hash fname rl =
     (case get_user_by_username s uname of
        Some _ \<Rightarrow> (Inl (OtherError ''IntegrityError''), s)
      | None \<Rightarrow>
          let user = \<lparr>user_pk = fresh_pk (map user_pk (users s)), username = uname,
                      full_name = Some fname, role = rl, disabled = False,
                      password_hash = pw_hash, created_at = now\<rparr>
          in (Inr user, s\<lparr>users := users s @ [user]\<rparr>))"

definition list_users :: "session \<Rightarrow> User list" where
  "list_users s = users s"

text \<open>
  The object that \<open>.first()\<close> returned is the one that is mutated and committed: the first
  row passing the filter is replaced in place.
\<close>

fun update_first :: "('a \<Rightarrow> bool) \<Rightarrow> ('a \<Rightarrow> 'a) \<Rightarrow> 'a list \<Rightarrow> 'a list" where
  "update_first P f [] = []"
| "update_first P f (x # xs) = (if P x then f x # xs else x # update_first P f xs)"

definition set_user_role :: "session \<Rightarrow> string \<Rightarrow> string \<Rightarrow> User option \<times> session" where
  "set_user_role s uname rl =
     (case get_user_by_username s uname of
        None \<Rightarrow> (None, s)
      | Some user \<Rightarrow>
          (Some (user\<lparr>role := rl\<rparr>),
           s\<lparr>users := update_first (\<lambda>u. username u = uname) (\<lambda>u. u\<lparr>role := rl\<rparr>) (users s)\<rparr>))"

definition upsert_company_profile ::
  "nat \<Rightarrow> session \<Rightarrow> string \<Rightarrow> string \<Rightarrow> string \<Rightarrow> string \<Rightarrow> CompanyProfile \<times> session" where
  "upsert_company_profile now s nm addr email logo =
     (case profiles s of
        [] \<Rightarrow>
          let profile = \<lparr>company_pk = fresh_pk [], name = nm, address = Some addr,
                         contact_email = Some email, logo_url = Some logo,
                         company_created_at = now\<rparr>
          in (profile, s\<lparr>profiles := [profile]\<rparr>)
      | profile # rest \<Rightarrow>
          let profile' = profile\<lparr>name := nm, address := Some addr,
                                 contact_email := Some email, logo_url := Some logo\<rparr>
          in (profile', s\<lparr>profiles := profile' # rest\<rparr>))"

definition get_company_profile :: "session \<Rightarrow> CompanyProfile option" where
  "get_company_profile s = (case profiles s of [] \<Rightarrow> None | profile # _ \<Rightarrow> Some profile)"

section \<open>auth.py\<close>

text \<open>
  The password-hashing context and the JWT library are collaborators with a contract:
  \<open>pwd_verify\<close> answers whether a password matches a hash and raises on a hash it cannot
  identify; \<open>jwt_decode\<close> yields the claims of a token whose signature and expiry check,
  and \<open>None\<close> where the library raises \<open>JWTError\<close>.  \<open>demo_hash\<close> is the salted hash of
  the demo password computed at import.
\<close>

record claims =
  sub :: "string option"
  exp :: nat

record auth_env =
  pwd_verify :: "string \<Rightarrow> string \<Rightarrow> exn + bool"
  pwd_hash :: "string \<Rightarrow> string"
  demo_hash :: string
  jwt_encode :: "claims \<Rightarrow> string"
  jwt_decode :: "string \<Rightarrow> claims option"
  utcnow :: nat
  ACCESS_TOKEN_EXPIRE_MINUTES :: nat

record fake_user =
  fake_user_id :: string
  hashed_password :: string
  fake_full_name :: string
  fake_disabled :: bool

definition FAKE_USERS_DB :: "auth_env \<Rightarrow> string \<rightharpoonup> fake_user" where
  "FAKE_USERS_DB env =
     [''doc_user'' \<mapsto> \<lparr>fake_user_id = ''doc_user'', hashed_password = demo_hash env,
                        fake_full_name = ''Dr. Alice Onco'', fake_disabled = False\<rparr>]"

definition verify_password :: "auth_env \<Rightarrow> string \<Rightarrow> string \<Rightarrow> exn + bool" where
  "verify_password env plain hashed = pwd_verify env plain hashed"

text \<open>Durations are in seconds; a zero \<open>expires_delta\<close> is falsy and gives the default.\<close>

definition create_access_token :: "auth_env \<Rightarrow> string \<Rightarrow> nat option \<Rightarrow> string" where
  "create_access_token env subject expires_delta =
     (let expire = (case expires_delta of
                      Some d \<Rightarrow> if d \<noteq> 0 then utcnow env + d
                                else utcnow env + ACCESS_TOKEN_EXPIRE_MINUTES env * 60
                    | None \<Rightarrow> utcnow env + ACCESS_TOKEN_EXPIRE_MINUTES env * 60)
      in jwt_encode env \<lparr>sub = Some subject, exp = expire\<rparr>)"

text \<open>The dictionary \<open>get_current_user\<close> returns.\<close>

record current_user =
  cu_user_id :: string
  cu_username :: string
  cu_role :: string

definition credentials_exception :: exn where
  "credentials_exception = HTTPException 401 ''Could not validate credentials''"

text \<open>
  \<open>get_current_user\<close>.  The database is \<open>None\<close> when opening the session or running the
  query raises.  Everything raised inside the database block is caught by its
  \<open>except Exception: pass\<close>, and that includes the \<open>HTTPException\<close> for an inactive row:
  a disabled row falls through to the in-memory user like a missing one.
\<close>

definition get_current_user :: "auth_env \<Rightarrow> session option \<Rightarrow> string \<Rightarrow> exn + current_user" where
  "get_current_user env db token =
     (case jwt_decode env token of
        None \<Rightarrow> Inl credentials_exception
      | Some payload \<Rightarrow>
          (case sub payload of
             None \<Rightarrow> Inl credentials_exception
           | Some uid \<Rightarrow>
               (case (case db of
                        None \<Rightarrow> None
                      | Some s \<Rightarrow>
                          (case get_user_by_username s uid of
                             None \<Rightarrow> None
                           | Some db_user \<Rightarrow>
                               if disabled db_user then None
                               else Some \<lparr>cu_user_id = username db_user,
                                          cu_username =
                                            (case full_name db_user of
                                               None \<Rightarrow> username db_user
                                             | Some fn \<Rightarrow> if fn = [] then username db_user else fn),
                                          cu_role = role db_user\<rparr>)) of
                  Some ident \<Rightarrow> Inr ident
                | None \<Rightarrow>
                    (case FAKE_USERS_DB env uid of
                       None \<Rightarrow> Inl credentials_exception
                     | Some user \<Rightarrow>
                         if fake_disabled user then Inl (HTTPException 400 ''Inactive user'')
                         else Inr \<lparr>cu_user_id = uid, cu_username = fake_full_name user,
                                   cu_role = ''doctor''\<rparr>))))"

section \<open>admin_api.py\<close>

definition require_admin :: "current_user \<Rightarrow> exn + current_user" where
  "require_admin cu =
     (if cu_role cu \<noteq> ''admin'' then Inl (HTTPException 403 ''Admin role required'')
      else Inr cu)"

definition require_doctor :: "current_user \<Rightarrow> exn + current_user" where
  "require_doctor cu =
     (if cu_role cu \<noteq> ''doctor'' then Inl (HTTPException 403 ''Doctor role required'')
      else Inr cu)"

record UserIn =
  in_username :: string
  in_full_name :: "string option"
  in_password :: string
  in_role :: string

record CompanyIn =
  in_name :: string
  in_address :: "string option"
  in_contact_email :: "string option"
  in_logo_url :: "string option"

text \<open>\<open>x or ""\<close> on an optional string.\<close>

definition or_empty :: "string option \<Rightarrow> string" where
  "or_empty x = (case x of None \<Rightarrow> [] | Some v \<Rightarrow> v)"

text \<open>
  Every route below takes the identity that \<open>get_current_user\<close> resolved; a request whose
  token does not resolve ends before the route is entered.
\<close>

definition admin_list_users :: "current_user \<Rightarrow> session \<Rightarrow> exn + User list" where
  "admin_list_users cu s =
     (case require_admin cu of Inl e \<Rightarrow> Inl e | Inr _ \<Rightarrow> Inr (list_users s))"

definition admin_create_user ::
  "auth_env \<Rightarrow> current_user \<Rightarrow> session \<Rightarrow> UserIn \<Rightarrow> (exn + User) \<times> session" where
  "admin_create_user env cu s payload =
     (case require_admin cu of
        Inl e \<Rightarrow> (Inl e, s)
      | Inr _ \<Rightarrow>
          create_user (utcnow env) s (in_username payload) (pwd_hash env (in_password payload))
            (or_empty (in_full_name payload)) (in_role payload))"

definition admin_set_role ::
  "current_user \<Rightarrow> session \<Rightarrow> string \<Rightarrow> string \<Rightarrow> (exn + User) \<times> session" where
  "admin_set_role cu s uname rl =
     (case require_admin cu of
        Inl e \<Rightarrow> (Inl e, s)
      | Inr _ \<Rightarrow>
          (case set_user_role s uname rl of
             (None, s') \<Rightarrow> (Inl (HTTPException 404 ''User not found''), s')
           | (Some user, s') \<Rightarrow> (Inr user, s')))"

text \<open>The answer of the company upsert is \<open>{"status": "ok", "company_id": prof.id}\<close>.\<close>

definition admin_upsert_company ::
  "auth_env \<Rightarrow> current_user \<Rightarrow> session \<Rightarrow> CompanyIn \<Rightarrow> (exn + string \<times> nat) \<times> session" where
  "admin_upsert_company env cu s payload =
     (case require_admin cu of
        Inl e \<Rightarrow> (Inl e, s)
      | Inr _ \<Rightarrow>
          (case upsert_company_profile (utcnow env) s (in_name payload)
                  (or_empty (in_address payload)) (or_empty (in_contact_email payload))
                  (or_empty (in_logo_url payload)) of
             (prof, s') \<Rightarrow> (Inr (''ok'', company_pk prof), s')))"

record company_view =
  view_id :: nat
  view_name :: string
  view_address :: "string option"
  view_contact_email :: "string option"
  view_logo_url :: "string option"

definition admin_get_company :: "current_user \<Rightarrow> session \<Rightarrow> exn + company_view option" where
  "admin_get_company cu s =
     (case require_admin cu of
        Inl e \<Rightarrow> Inl e
      | Inr _ \<Rightarrow>
          (case get_company_profile s of
             None \<Rightarrow> Inr None
           | Some prof \<Rightarrow>
               Inr (Some \<lparr>view_id = company_pk prof, view_name = name prof,
                          view_address = address prof,
                          view_contact_email = contact_email prof,
                          view_logo_url = logo_url prof\<rparr>)))"

text \<open>
  The audit file holds a header line and one line per prediction; \<open>csv.DictReader\<close> yields
  the data rows.  The file is \<open>None\<close> while it does not exist.
\<close>

record audit_row =
  row_audit_id :: string
  row_user_id :: string
  row_filename :: string
  row_saved_path :: string
  row_processing_time_seconds :: real

text \<open>The slice \<open>xs[start:]\<close> for any integer \<open>start\<close>.\<close>

definition slice_from :: "'a list \<Rightarrow> int \<Rightarrow> 'a list" where
  "slice_from xs start =
     (let n = int (length xs);
          i = (if start < 0 then max 0 (n + start) else min start n)
      in drop (nat i) xs)"

definition admin_list_audits ::
  "current_user \<Rightarrow> int \<Rightarrow> audit_row list option \<Rightarrow> exn + audit_row list" where
  "admin_list_audits cu limit audit_csv =
     (case require_admin cu of
        Inl e \<Rightarrow> Inl e
      | Inr _ \<Rightarrow>
          (case audit_csv of
             None \<Rightarrow> Inr []
           | Some all_rows \<Rightarrow> Inr (slice_from all_rows (- limit))))"

section \<open>utils_dicom.py: the image loader\<close>

text \<open>
  A numpy array of integers: its element type (signed or unsigned, with its width in
  bits), its shape, and its elements in row-major order.  Every element fits the element
  type and there are as many elements as the shape says; arithmetic between an array and
  a scalar of the same element type stays in that type and wraps around (two's
  complement).
\<close>

datatype dtype = SInt nat | UInt nat

record ndarray =
  nd_dtype :: dtype
  nd_shape :: "nat list"
  nd_data :: "int list"

definition wrap :: "dtype \<Rightarrow> int \<Rightarrow> int" where
  "wrap t x =
     (case t of
        SInt w \<Rightarrow> (x + 2 ^ (w - 1)) mod 2 ^ w - 2 ^ (w - 1)
      | UInt w \<Rightarrow> x mod 2 ^ w)"


text \<open>The double an integer is converted to when it meets a float.\<close>

definition int_to_double :: "int \<Rightarrow> real" where
  "int_to_double n = round_to_double (of_int n)"

text \<open>
  What \<open>pydicom.dcmread\<close> hands back, as far as the loader reads it: the pixel array of
  the Pixel Data element (reading the attribute raises when the data cannot be decoded)
  and the modality attribute when the file carries one.  \<open>pil_open\<close> is
  \<open>Image.open(...).convert("RGB")\<close>.  Both raise on content they cannot parse.
\<close>

record dataset =
  pixel_array :: "exn + ndarray"
  Modality :: "string option"

record decode_env =
  HAVE_PYDICOM :: bool
  dcmread :: "bytes \<Rightarrow> exn + dataset"
  pil_open :: "bytes \<Rightarrow> exn + image"

text \<open>
  \<open>astype("uint8")\<close>: an integer is reduced modulo 256; a float is cut towards zero and
  then reduced modulo 256 (what the conversion does to a value outside \<open>[0, 256)\<close> is left
  to the platform; this is x86-64 for magnitudes below \<open>2^31\<close>).
\<close>

definition astype_uint8_int :: "int \<Rightarrow> nat" where
  "astype_uint8_int v = nat (v mod 256)"

definition astype_uint8_float :: "real \<Rightarrow> nat" where
  "astype_uint8_float x = nat ((if 0 \<le> x then \<lfloor>x\<rfloor> else \<lceil>x\<rceil>) mod 256)"

text \<open>
  The block "Normalize to 0-255" of \<open>load_image_from_bytes\<close> with the conversion to
  \<open>uint8\<close>.  \<open>arr - arr_min\<close> and \<open>arr_max - arr_min\<close> are computed in the element type of
  the array; the quotient \<open>255.0 / (arr_max - arr_min)\<close> and each product are doubles.
  (When the elements fit the element type, the wrapped range of an array that is not
  constant is not 0.)  \<open>min()\<close> of an empty array raises.  The shape is kept.
\<close>

definition normalize_to_uint8 :: "ndarray \<Rightarrow> exn + ndarray" where
  "normalize_to_uint8 arr =
     (case nd_data arr of
        [] \<Rightarrow> Inl (ValueError ''zero-size array to reduction operation minimum which has no identity'')
      | v0 # vs \<Rightarrow>
          let arr_min = fold min vs v0; arr_max = fold max vs v0; t = nd_dtype arr
          in if arr_min < arr_max then
               let scale = float_div 255 (int_to_double (wrap t (arr_max - arr_min)))
               in Inr (arr\<lparr>nd_dtype := UInt 8,
                            nd_data :=
                              map (\<lambda>v. int (astype_uint8_float
                                             (float_mul (int_to_double (wrap t (v - arr_min))) scale)))
                                (nd_data arr)\<rparr>)
             else Inr (arr\<lparr>nd_dtype := UInt 8,
                            nd_data := map (\<lambda>v. int (astype_uint8_int v)) (nd_data arr)\<rparr>))"

text \<open>
  \<open>Image.fromarray\<close> on an array of \<open>uint8\<close>.  The mode is looked up by the axes after
  the second: none gives a greyscale image, a third axis of 2, 3 or 4 is read as the bands
  of a pixel, and anything else is not in the table (\<open>TypeError\<close>; its message goes on
  with the key that was looked up).  The size is taken from the first two axes, so an
  array with no axis at all raises \<open>IndexError\<close>.
\<close>

definition fromarray :: "ndarray \<Rightarrow> exn + image" where
  "fromarray a =
     (let samples = map nat (nd_data a)
      in case nd_shape a of
           [] \<Rightarrow> Inl IndexError
         | [n] \<Rightarrow> Inr (Image ''L'' (1, n) samples)
         | [h, w] \<Rightarrow> Inr (Image ''L'' (w, h) samples)
         | [h, w, b] \<Rightarrow>
             if b = 2 then Inr (Image ''LA'' (w, h) samples)
             else if b = 3 then Inr (Image ''RGB'' (w, h) samples)
             else if b = 4 then Inr (Image ''RGBA'' (w, h) samples)
             else Inl (TypeError ''Cannot handle this data type'')
         | _ \<Rightarrow> Inl (TypeError ''Cannot handle this data type''))"

definition load_image_from_bytes :: "decode_env \<Rightarrow> bytes \<Rightarrow> string \<Rightarrow> exn + image \<times> string" where
  "load_image_from_bytes env data fname =
     (let nm = lower fname
      in if endswith nm ''.dcm'' \<and> HAVE_PYDICOM env then
           (case dcmread env data of
              Inl e \<Rightarrow> Inl e
            | Inr ds \<Rightarrow>
                (case pixel_array ds of
                   Inl e \<Rightarrow> Inl e
                 | Inr arr \<Rightarrow>
                     (case normalize_to_uint8 arr of
                        Inl e \<Rightarrow> Inl e
                      | Inr a \<Rightarrow>
                          (case fromarray a of
                             Inl e \<Rightarrow> Inl e
                           | Inr img \<Rightarrow>
                               Inr (img, (case Modality ds of
                                            None \<Rightarrow> ''DICOM''
                                          | Some m \<Rightarrow> m))))))
         else
           (case pil_open env data of
              Inl e \<Rightarrow> Inl e
            | Inr img \<Rightarrow>
                Inr (img, if endswith nm ''.png'' \<or> endswith nm ''.jpg'' \<or> endswith nm ''.jpeg''
                          then ''CT'' else ''Unknown'')))"

section \<open>Strings and POSIX paths\<close>

text \<open>
  \<open>str.replace(old, new)\<close>: occurrences of \<open>old\<close> are replaced from left to right and do
  not overlap; the text produced by a replacement is not scanned again.
\<close>

function replace :: "string \<Rightarrow> string \<Rightarrow> string \<Rightarrow> string" where
  "replace s old new =
     (if old = [] then new @ concat (map (\<lambda>c. c # new) s)
      else if s = [] then []
      else if take (length old) s = old then new @ replace (drop (length old) s) old new
      else hd s # replace (tl s) old new)"
  by pat_completeness auto
termination
  by (relation "measure (\<lambda>(s, old, new). length s)") auto

declare replace.simps [simp del]

text \<open>\<open>os.path.join\<close> of two parts, \<open>str.split("/")\<close> and \<open>"/".join\<close>.\<close>

definition join :: "string \<Rightarrow> string \<Rightarrow> string" where
  "join a b =
     (if take 1 b = ''/'' then b
      else if a = [] \<or> last a = CHR ''/'' then a @ b
      else a @ ''/'' @ b)"

fun split_on :: "char \<Rightarrow> string \<Rightarrow> string list" where
  "split_on c [] = [[]]"
| "split_on c (x # xs) =
     (if x = c then [] # split_on c xs
      else (case split_on c xs of [] \<Rightarrow> [[x]] | w # ws \<Rightarrow> (x # w) # ws))"

fun sep_join :: "string list \<Rightarrow> string" where
  "sep_join [] = []"
| "sep_join [w] = w"
| "sep_join (w # v # ws) = w @ ''/'' @ sep_join (v # ws)"

text \<open>
  \<open>posixpath.normpath\<close>: empty and \<open>.\<close> components are dropped, \<open>..\<close> removes the component
  before it (at the root it is dropped; in a relative path leading \<open>..\<close> are kept), and a
  path that starts with exactly two slashes keeps both.
\<close>

definition normpath_step :: "bool \<Rightarrow> string list \<Rightarrow> string \<Rightarrow> string list" where
  "normpath_step initial_slashes new_comps part =
     (if part = [] \<or> part = ''.'' then new_comps
      else if part \<noteq> ''..'' \<or> (\<not> initial_slashes \<and> new_comps = [])
              \<or> (new_comps \<noteq> [] \<and> last new_comps = ''..'')
      then new_comps @ [part]
      else if new_comps \<noteq> [] then butlast new_comps
      else new_comps)"

definition initial_slashes_of :: "string \<Rightarrow> nat" where
  "initial_slashes_of path =
     (if take 1 path = ''/'' then
        (if take 2 path = ''//'' \<and> take 3 path \<noteq> ''///'' then 2 else 1)
      else 0)"

definition normpath :: "string \<Rightarrow> string" where
  "normpath path =
     (if path = [] then ''.''
      else
        let n = initial_slashes_of path;
            comps = foldl (normpath_step (n \<noteq> 0)) [] (split_on (CHR ''/'') path);
            path' = replicate n (CHR ''/'') @ sep_join comps
        in if path' = [] then ''.'' else path')"

text \<open>\<open>os.path.abspath\<close>, with the working directory of the process as a parameter.\<close>

definition abspath :: "string \<Rightarrow> string \<Rightarrow> string" where
  "abspath cwd path = normpath (if take 1 path = ''/'' then path else join cwd path)"

section \<open>main.py: the API layer\<close>

text \<open>
  The response model of \<open>/predict\<close>; its field \<open>primary_finding\<close> is called
  \<open>diag_primary_finding\<close> here, apart from the key of the prediction dictionary.
\<close>

record DiagnosisResult =
  audit_id :: string
  user_id :: string
  scan_modality :: string
  filename :: string
  diag_primary_finding :: string
  probability_malignancy :: pyfloat
  processing_time_seconds :: real

text \<open>
  The state a request reads and writes beside the relational store: the files on disk
  (by absolute path), the audit file and the holder of the model service.
\<close>

record server =
  files :: "string \<rightharpoonup> bytes"
  audit_csv :: "audit_row list option"
  MODEL_SERVICE :: "model_service option"

text \<open>
  Where the module lives and where the process runs, and what the operating system
  refuses when a path is created or opened for writing, for reasons that the path itself
  does not decide (permissions, a full disk, a read-only file system); and what one
  request draws from the clock, the random generator and the UUID generator.
\<close>

record main_env =
  module_dir :: string
  getcwd :: string
  os_error :: "string \<Rightarrow> exn option"

record request_env =
  uuid_upload :: string
  uuid_audit :: string
  rand_random :: real
  rand_uniform :: real
  elapsed :: real

record UploadFile =
  upload_filename :: "string option"
  contents :: bytes

text \<open>\<open>file.filename or f"upload_{uuid.uuid4().hex}"\<close>.\<close>

definition effective_filename :: "request_env \<Rightarrow> UploadFile \<Rightarrow> string" where
  "effective_filename rq file =
     (case upload_filename file of
        None \<Rightarrow> ''upload_'' @ uuid_upload rq
      | Some f \<Rightarrow> if f = [] then ''upload_'' @ uuid_upload rq else f)"

definition upload_dir :: "main_env \<Rightarrow> string" where
  "upload_dir env = join (join (module_dir env) ''..'') ''uploads''"

definition safe_name :: "string \<Rightarrow> string" where
  "safe_name fname = replace (replace fname ''..'' []) ''/'' ''_''"

definition saved_path :: "main_env \<Rightarrow> string \<Rightarrow> string" where
  "saved_path env fname = abspath (getcwd env) (join (upload_dir env) (safe_name fname))"

definition audit_csv_path :: "main_env \<Rightarrow> string" where
  "audit_csv_path env = join (join (module_dir env) ''..'') ''audit_log.csv''"

text \<open>
  The error \<open>open(path, 'wb')\<close> raises, \<open>None\<close> when the file opens.  Python refuses a
  path with a NUL character; the upload directory exists once \<open>os.makedirs\<close> has run, so
  opening it for writing fails; a last component over 255 bytes or a path over 4095 bytes
  is too long for Linux; and the operating system may refuse for reasons of its own.
\<close>

definition open_wb :: "main_env \<Rightarrow> string \<Rightarrow> exn option" where
  "open_wb env path =
     (if CHR 0x00 \<in> set path then Some (ValueError ''embedded null byte'')
      else if path = abspath (getcwd env) (upload_dir env) then Some IsADirectoryError
      else if 255 < length (last (split_on (CHR ''/'') path)) \<or> 4095 < length path
      then Some (OSError ''File name too long'')
      else os_error env path)"

text \<open>
  \<open>login_for_access_token\<close>.  \<open>uname\<close> and \<open>password\<close> are what the JSON body or the form
  yields for the two keys (\<open>None\<close> when a key is missing).  The database block returns a
  token when the row exists and the password verifies; whatever it raises is swallowed and
  the in-memory user is tried.  Neither branch reads a \<open>disabled\<close> flag.
\<close>

definition login_for_access_token ::
  "auth_env \<Rightarrow> session option \<Rightarrow> string option \<Rightarrow> string option \<Rightarrow> exn + string \<times> string" where
  "login_for_access_token env db uname password =
     (case (uname, password) of
        (Some u, Some pw) \<Rightarrow>
          if u = [] \<or> pw = [] then Inl (HTTPException 400 ''Missing credentials'')
          else
            (case (case db of
                     None \<Rightarrow> None
                   | Some s \<Rightarrow>
                       (case get_user_by_username s u of
                          None \<Rightarrow> None
                        | Some db_user \<Rightarrow>
                            (case verify_password env pw (password_hash db_user) of
                               Inr True \<Rightarrow>
                                 Some (create_access_token env (username db_user) None, ''bearer'')
                             | _ \<Rightarrow> None))) of
               Some answer \<Rightarrow> Inr answer
             | None \<Rightarrow>
                 (case FAKE_USERS_DB env u of
                    None \<Rightarrow> Inl (HTTPException 401 ''Incorrect username or password'')
                  | Some user \<Rightarrow>
                      (case verify_password env pw (hashed_password user) of
                         Inl e \<Rightarrow> Inl e
                       | Inr False \<Rightarrow> Inl (HTTPException 401 ''Incorrect username or password'')
                       | Inr True \<Rightarrow> Inr (create_access_token env u None, ''bearer''))))
      | _ \<Rightarrow> Inl (HTTPException 400 ''Missing credentials''))"

definition read_users_me :: "current_user \<Rightarrow> current_user" where
  "read_users_me cu = cu"

definition reload_model ::
  "model_env \<Rightarrow> server \<Rightarrow> current_user \<Rightarrow> (exn + model_status) \<times> server" where
  "reload_model env st cu =
     (if cu_role cu \<noteq> ''admin'' then (Inl (HTTPException 403 ''Admin role required''), st)
      else
        (case get_model_service env (MODEL_SERVICE st) of
           Inl e \<Rightarrow> (Inl e, st)
         | Inr ms \<Rightarrow>
             (case reload env ms of
                (r, ms') \<Rightarrow> (r, st\<lparr>MODEL_SERVICE := Some ms'\<rparr>))))"

text \<open>
  \<open>predict_scan\<close>.  Creating the upload directory, opening the saved path and opening the
  audit file can each fail, and so can the construction of the model service; each such
  failure ends the request with the state reached so far.  A decode failure of any kind
  leaves no image and the modality "Unknown".
\<close>

definition predict_scan ::
  "main_env \<Rightarrow> decode_env \<Rightarrow> model_env \<Rightarrow> request_env \<Rightarrow> server \<Rightarrow> UploadFile \<Rightarrow> current_user
     \<Rightarrow> (exn + DiagnosisResult) \<times> server" where
  "predict_scan env denv menv rq st file cu =
     (let fname = effective_filename rq file;
          path = saved_path env fname
      in case os_error env (upload_dir env) of
           Some e \<Rightarrow> (Inl e, st)
         | None \<Rightarrow>
      (case open_wb env path of
         Some e \<Rightarrow> (Inl e, st)
       | None \<Rightarrow>
           let st1 = st\<lparr>files := (files st)(path \<mapsto> contents file)\<rparr>;
               decoded = (case load_image_from_bytes denv (contents file) fname of
                            Inl _ \<Rightarrow> (None, ''Unknown'')
                          | Inr (img, modality) \<Rightarrow> (Some img, modality))
           in case get_model_service menv (MODEL_SERVICE st1) of
                Inl e \<Rightarrow> (Inl e, st1)
              | Inr ms \<Rightarrow>
                  let st2 = st1\<lparr>MODEL_SERVICE := Some ms\<rparr>
                  in case (case fst decoded of
                             Some img \<Rightarrow>
                               (case predict ms (rand_random rq) img of
                                  Inl e \<Rightarrow> Inl e
                                | Inr pred \<Rightarrow> Inr (probability pred, primary_finding pred))
                           | None \<Rightarrow>
                               Inr (Finite (py_round (rand_uniform rq) 4), ''no acute findings'')) of
                       Inl e \<Rightarrow> (Inl e, st2)
                     | Inr (prob, primary) \<Rightarrow>
                         (case os_error env (audit_csv_path env) of
                            Some e \<Rightarrow> (Inl e, st2)
                          | None \<Rightarrow>
                              let row = \<lparr>row_audit_id = uuid_audit rq, row_user_id = cu_user_id cu,
                                         row_filename = fname, row_saved_path = path,
                                         row_processing_time_seconds = py_round (elapsed rq) 3\<rparr>;
                                  st3 = st2\<lparr>audit_csv :=
                                              Some (case audit_csv st2 of
                                                      None \<Rightarrow> [row]
                                                    | Some rows \<Rightarrow> rows @ [row])\<rparr>
                              in (Inr \<lparr>audit_id = uuid_audit rq, user_id = cu_user_id cu,
                                       scan_modality = snd decoded, filename = fname,
                                       diag_primary_finding = primary,
                                       probability_malignancy = prob,
                                       processing_time_seconds = py_round (elapsed rq) 3\<rparr>, st3))))"

section \<open>Sequences of requests and variations of the store\<close>

text \<open>
  A sequence of company upserts, each with its clock reading and its four fields, run one
  after the other on the store.
\<close>

definition upsert_sequence ::
  "session \<Rightarrow> (nat \<times> string \<times> string \<times> string \<times> string) list \<Rightarrow> session" where
  "upsert_sequence s posts =
     foldl (\<lambda>s' (now, nm, addr, email, logo).
              snd (upsert_company_profile now s' nm addr email logo)) s posts"

text \<open>
  The linear map that sends \<open>lo\<close> to 0 and \<open>hi\<close> to 255, cut to its integer part: what
  the specification asks of every pixel.
\<close>

definition linear_pixel :: "int \<Rightarrow> int \<Rightarrow> int \<Rightarrow> nat" where
  "linear_pixel lo hi v = nat \<lfloor>of_int (v - lo) * 255 / (of_int (hi - lo) :: real)\<rfloor>"

text \<open>A text without two dots in a row, and the path that \<open>abspath\<close> normalises.\<close>

fun dotdot_free :: "string \<Rightarrow> bool" where
  "dotdot_free (a # b # r) = (\<not> (a = CHR ''.'' \<and> b = CHR ''.'') \<and> dotdot_free (b # r))"
| "dotdot_free _ = True"

definition anchored :: "string \<Rightarrow> string \<Rightarrow> string" where
  "anchored cwd path = (if take 1 path = ''/'' then path else join cwd path)"

text \<open>The store with the \<open>disabled\<close> flag of every user row set as \<open>d\<close> says.\<close>

definition set_disabled :: "(User \<Rightarrow> bool) \<Rightarrow> session \<Rightarrow> session" where
  "set_disabled d s = s\<lparr>users := map (\<lambda>r. r\<lparr>disabled := d r\<rparr>) (users s)\<rparr>"

section \<open>Concrete inputs\<close>

text \<open>Values at which the theorems below are instantiated.\<close>

definition simulate_service :: model_service where
  "simulate_service =
     \<lparr>backend = ''simulate'', model_path = None, device = ''cpu'',
      model = Some Simulate, loaded = True\<rparr>"

definition admin_identity :: current_user where
  "admin_identity = \<lparr>cu_user_id = ''root'', cu_username = ''Root'', cu_role = ''admin''\<rparr>"

definition alice :: User where
  "alice = \<lparr>user_pk = 1, username = ''alice'', full_name = Some ''Alice'', role = ''doctor'',
            disabled = False, password_hash = ''h1'', created_at = 0\<rparr>"

definition store_alice :: session where
  "store_alice = \<lparr>users = [alice], profiles = []\<rparr>"

text \<open>
  A toy instance of the collaborators of \<open>auth.py\<close>: a hash is the password behind a
  prefix, a token is its subject.
\<close>

definition demo_auth_env :: auth_env where
  "demo_auth_env =
     \<lparr>pwd_verify = (\<lambda>plain hashed. Inr (hashed = ''hash:'' @ plain)),
      pwd_hash = (\<lambda>plain. ''hash:'' @ plain),
      demo_hash = ''hash:securepass'',
      jwt_encode = (\<lambda>c. case sub c of None \<Rightarrow> [] | Some u \<Rightarrow> u),
      jwt_decode = (\<lambda>t. if t = [] then None else Some \<lparr>sub = Some t, exp = 0\<rparr>),
      utcnow = 0,
      ACCESS_TOKEN_EXPIRE_MINUTES = 1440\<rparr>"

definition mallory :: User where
  "mallory = \<lparr>user_pk = 2, username = ''mallory'', full_name = Some ''Mallory'',
              role = ''doctor'', disabled = True, password_hash = ''hash:letmein'',
              created_at = 0\<rparr>"

definition store_mallory :: session where
  "store_mallory = \<lparr>users = [mallory], profiles = []\<rparr>"

definition row1 :: audit_row where
  "row1 = \<lparr>row_audit_id = ''a1'', row_user_id = ''doc_user'', row_filename = ''one.png'',
           row_saved_path = ''/srv/uploads/one.png'', row_processing_time_seconds = 1 / 4\<rparr>"

definition row2 :: audit_row where
  "row2 = \<lparr>row_audit_id = ''a2'', row_user_id = ''doc_user'', row_filename = ''two.png'',
           row_saved_path = ''/srv/uploads/two.png'', row_processing_time_seconds = 1 / 2\<rparr>"

definition demo_model_env :: model_env where
  "demo_model_env =
     \<lparr>environ = Map.empty, torch_available = False, path_exists = (\<lambda>_. False),
      jit_load = (\<lambda>_ _. Inl (OtherError ''no torch''))\<rparr>"

definition empty_server :: server where
  "empty_server = \<lparr>files = Map.empty, audit_csv = None, MODEL_SERVICE = None\<rparr>"

text \<open>
  Toy decoders: a DICOM parser that yields a given pixel array, and a raster decoder that
  accepts only data behind a magic prefix.
\<close>

definition dicom_env_of :: "ndarray \<Rightarrow> decode_env" where
  "dicom_env_of arr =
     \<lparr>HAVE_PYDICOM = True,
      dcmread = (\<lambda>_. Inr \<lparr>pixel_array = Inr arr, Modality = Some ''MR''\<rparr>),
      pil_open = (\<lambda>_. Inl (OtherError ''UnidentifiedImageError''))\<rparr>"

text \<open>One row of pixels of the given element type.\<close>

definition row_array :: "dtype \<Rightarrow> int list \<Rightarrow> ndarray" where
  "row_array t vs = \<lparr>nd_dtype = t, nd_shape = [1, length vs], nd_data = vs\<rparr>"

definition plain_decode_env :: decode_env where
  "plain_decode_env =
     \<lparr>HAVE_PYDICOM = False,
      dcmread = (\<lambda>_. Inl (OtherError ''InvalidDicomError'')),
      pil_open = (\<lambda>data. if take 4 data = ''PNG:''
                          then Inr (Image ''RGB'' (1, 1) (map of_char (drop 4 data)))
                          else Inl (OtherError ''UnidentifiedImageError''))\<rparr>"

definition demo_main_env :: main_env where
  "demo_main_env = \<lparr>module_dir = ''/srv/oncoscan_webapp/backend'', getcwd = ''/srv'',
                     os_error = (\<lambda>_. None)\<rparr>"

text \<open>A process told to use torch where torch is not installed.\<close>

definition torch_missing_env :: model_env where
  "torch_missing_env =
     \<lparr>environ = [''ONCOSCAN_MODEL_BACKEND'' \<mapsto> ''torch''], torch_available = False,
      path_exists = (\<lambda>_. False), jit_load = (\<lambda>_ _. Inl (OtherError ''no torch''))\<rparr>"

definition demo_request :: request_env where
  "demo_request = \<lparr>uuid_upload = ''u1'', uuid_audit = ''a7'', rand_random = 1 / 4,
                    rand_uniform = 1 / 2, elapsed = 1 / 8\<rparr>"

definition fake_upload :: UploadFile where
  "fake_upload = \<lparr>upload_filename = Some ''scan.png'', contents = ''fake-image-data''\<rparr>"

definition png_upload :: UploadFile where
  "png_upload = \<lparr>upload_filename = Some ''scan.png'', contents = ''PNG:abc''\<rparr>"

text \<open>A loaded torch service whose network answers NaN, and a server that holds it.\<close>

definition nan_service :: model_service where
  "nan_service =
     \<lparr>backend = ''torch'', model_path = Some ''model.pt'', device = ''cpu'',
      model = Some (TorchModel (\<lambda>_. Inr NaN)), loaded = True\<rparr>"

definition nan_server :: server where
  "nan_server = \<lparr>files = Map.empty, audit_csv = None, MODEL_SERVICE = Some nan_service\<rparr>"

definition dotdot_upload :: UploadFile where
  "dotdot_upload = \<lparr>upload_filename = Some ''..'', contents = ''PNG:abc''\<rparr>"

definition doc_identity :: current_user where
  "doc_identity =
     \<lparr>cu_user_id = ''doc_user'', cu_username = ''Dr. Alice Onco'', cu_role = ''doctor''\<rparr>"

section \<open>Rounding\<close>

lemma round_half_even_lower: "of_int m \<le> y \<Longrightarrow> m \<le> round_half_even y"
proof -
  assume "of_int m \<le> y"
  then have "m \<le> \<lfloor>y\<rfloor>" by (simp add: le_floor_iff)
  then show ?thesis by (simp add: round_half_even_def Let_def)
qed

lemma round_half_even_upper: "y \<le> of_int m \<Longrightarrow> round_half_even y \<le> m"
proof (cases "y = of_int m")
  case True
  then show ?thesis by (simp add: round_half_even_def Let_def)
next
  case False
  assume "y \<le> of_int m"
  with False have "y < of_int m" by simp
  then have "\<lfloor>y\<rfloor> < m" by (simp add: floor_less_iff)
  then show ?thesis by (simp add: round_half_even_def Let_def)
qed

lemma round_half_even_error: "\<bar>of_int (round_half_even y) - y\<bar> \<le> 1 / 2"
proof -
  define d where "d = y - of_int \<lfloor>y\<rfloor>"
  have d: "0 \<le> d" "d < 1" unfolding d_def by linarith+
  consider "d < 1 / 2" | "1 / 2 < d" | "d = 1 / 2" by linarith
  then show ?thesis
  proof cases
    case 1
    then have "round_half_even y = \<lfloor>y\<rfloor>" by (simp add: round_half_even_def d_def Let_def)
    then show ?thesis using d 1 by (simp add: d_def)
  next
    case 2
    then have "round_half_even y = \<lfloor>y\<rfloor> + 1" by (simp add: round_half_even_def d_def Let_def)
    then show ?thesis using d 2 by (simp add: d_def)
  next
    case 3
    then have "round_half_even y = \<lfloor>y\<rfloor> \<or> round_half_even y = \<lfloor>y\<rfloor> + 1"
      by (simp add: round_half_even_def d_def Let_def)
    then show ?thesis using 3 by (auto simp: d_def)
  qed
qed

lemma powr_powi: "(2::real) powr of_int k = 2 powi k"
  by (rule powr_real_of_int') simp_all

lemma floor_log2_eq:
  assumes "2 powi k \<le> x" and "x < 2 powi (k + 1)"
  shows "\<lfloor>log 2 x\<rfloor> = k"
proof -
  have "0 < (2::real) powi k" by simp
  with assms(1) have pos: "0 < x" by linarith
  have "2 powr of_int k \<le> x" using assms(1) by (simp only: powr_powi)
  moreover have "x < 2 powr (of_int k + 1)"
    using assms(2) powr_powi [of "k + 1"] by simp
  ultimately show ?thesis using pos by (simp add: floor_log_eq_powr_iff)
qed

lemma floor_log2_bounds:
  assumes "0 < x"
  shows "2 powi \<lfloor>log 2 x\<rfloor> \<le> x"
proof -
  have "2 powr of_int \<lfloor>log 2 x\<rfloor> \<le> x"
    using floor_log_eq_powr_iff [of x 2 "\<lfloor>log 2 x\<rfloor>"] assms by simp
  then show ?thesis by (simp only: powr_powi)
qed

text \<open>The value of the rounding once the binade of the argument is known.\<close>

lemma round_to_double_at:
  assumes "2 powi k \<le> \<bar>x\<bar>" and "\<bar>x\<bar> < 2 powi (k + 1)"
  shows "round_to_double x = of_int (round_half_even (x / 2 powi (k - 52))) * 2 powi (k - 52)"
proof -
  have "0 < (2::real) powi k" by simp
  with assms(1) have "0 < \<bar>x\<bar>" by linarith
  then have "x \<noteq> 0" by simp
  moreover have "\<lfloor>log 2 \<bar>x\<bar>\<rfloor> = k" using assms by (rule floor_log2_eq)
  ultimately show ?thesis by (simp add: round_to_double_def Let_def)
qed

text \<open>Rounding to a double changes a number by at most one part in \<open>2^53\<close>.\<close>

lemma round_to_double_error: "\<bar>round_to_double x - x\<bar> \<le> \<bar>x\<bar> / 2 ^ 53"
proof (cases "x = 0")
  case True
  then show ?thesis by (simp add: round_to_double_def)
next
  case False
  define k where "k = \<lfloor>log 2 \<bar>x\<bar>\<rfloor>"
  define e where "e = k - 52"
  define y where "y = x / 2 powi e"
  have pos: "0 < \<bar>x\<bar>" using False by simp
  have k: "2 powi k \<le> \<bar>x\<bar>"
    unfolding k_def using pos by (rule floor_log2_bounds)
  have pe: "0 < (2::real) powi e" by simp
  have x: "x = y * 2 powi e" by (simp add: y_def)
  have fl: "round_to_double x = of_int (round_half_even y) * 2 powi e"
    using False by (simp add: round_to_double_def k_def e_def y_def Let_def)
  have "\<bar>round_to_double x - x\<bar> = \<bar>of_int (round_half_even y) - y\<bar> * 2 powi e"
    unfolding fl by (subst x) (simp add: abs_mult flip: left_diff_distrib)
  also have "\<dots> \<le> 1 / 2 * 2 powi e"
    using round_half_even_error [of y] pe by (intro mult_right_mono) simp_all
  also have "\<dots> = 2 powi k / 2 ^ 53"
    by (simp add: e_def power_int_diff)
  also have "\<dots> \<le> \<bar>x\<bar> / 2 ^ 53" using k by (simp add: divide_right_mono)
  finally show ?thesis .
qed

lemma round_to_double_zero: "round_to_double 0 = 0"
  by (simp add: round_to_double_def)

lemma round_to_double_bounds:
  assumes "0 \<le> a" and "a \<le> x" and "x \<le> b"
  shows "a * (1 - 1 / 2 ^ 53) \<le> round_to_double x"
    and "round_to_double x \<le> b * (1 + 1 / 2 ^ 53)"
proof -
  define u :: real where "u = 1 / 2 ^ 53"
  have u: "0 \<le> u" "u \<le> 1" by (simp_all add: u_def)
  have x: "0 \<le> x" using assms by simp
  have "\<bar>round_to_double x - x\<bar> \<le> x * u"
    using round_to_double_error [of x] x by (simp add: u_def)
  then have lo: "x - x * u \<le> round_to_double x" and hi: "round_to_double x \<le> x + x * u"
    by linarith+
  have "a * (1 - u) \<le> x * (1 - u)"
    using assms(2) u by (intro mult_right_mono) simp_all
  also have "\<dots> = x - x * u" by (simp add: algebra_simps)
  finally have "a * (1 - u) \<le> round_to_double x" using lo by linarith
  then show "a * (1 - 1 / 2 ^ 53) \<le> round_to_double x" by (simp only: u_def)
  have "x + x * u = x * (1 + u)" by (simp add: algebra_simps)
  also have "\<dots> \<le> b * (1 + u)"
    using assms(3) u by (intro mult_right_mono) simp_all
  finally have "round_to_double x \<le> b * (1 + u)" using hi by linarith
  then show "round_to_double x \<le> b * (1 + 1 / 2 ^ 53)" by (simp only: u_def)
qed

text \<open>A coarse form: one percent either way.\<close>

lemma round_to_double_coarse:
  assumes "0 \<le> a" and "a \<le> x" and "x \<le> b"
  shows "a * (99 / 100) \<le> round_to_double x" and "round_to_double x \<le> b * (101 / 100)"
proof -
  have b: "0 \<le> b" using assms by simp
  have "a * (99 / 100) \<le> a * (1 - 1 / 2 ^ 53)"
    using assms(1) by (intro mult_left_mono) simp_all
  with round_to_double_bounds(1) [OF assms] show "a * (99 / 100) \<le> round_to_double x" by simp
  have "b * (1 + 1 / 2 ^ 53) \<le> b * (101 / 100)"
    using b by (intro mult_left_mono) simp_all
  with round_to_double_bounds(2) [OF assms] show "round_to_double x \<le> b * (101 / 100)" by simp
qed


text \<open>
  \<open>round(x, 4)\<close> of a value between two non-negative multiples of \<open>10^-4\<close> lies between
  their nearest doubles.
\<close>

lemma py_round_4_bounds:
  assumes "0 \<le> lo" and "of_int lo / 10000 \<le> x" and "x \<le> of_int hi / 10000"
  shows "of_int lo / 10000 * (1 - 1 / 2 ^ 53) \<le> py_round x 4"
    and "py_round x 4 \<le> of_int hi / 10000 * (1 + 1 / 2 ^ 53)"
proof -
  let ?m = "round_half_even (x * 10 ^ 4)"
  from assms have "of_int lo \<le> x * 10 ^ 4" and "x * 10 ^ 4 \<le> of_int hi"
    by simp_all
  then have "lo \<le> ?m" and "?m \<le> hi"
    by (simp_all add: round_half_even_lower round_half_even_upper)
  then have "(of_int lo :: real) \<le> of_int ?m" and "(of_int ?m :: real) \<le> of_int hi"
    by simp_all
  then have b: "of_int lo / 10000 \<le> (of_int ?m :: real) / 10 ^ 4"
    "(of_int ?m :: real) / 10 ^ 4 \<le> of_int hi / 10000"
    by (simp_all add: divide_right_mono)
  have a: "0 \<le> (of_int lo :: real) / 10000" using assms(1) by simp
  from round_to_double_bounds [OF a b]
  show "of_int lo / 10000 * (1 - 1 / 2 ^ 53) \<le> py_round x 4"
    and "py_round x 4 \<le> of_int hi / 10000 * (1 + 1 / 2 ^ 53)"
    by (simp_all add: py_round_def)
qed

text \<open>Doubles that the examples meet.\<close>

lemma round_to_double_half: "round_to_double (1 / 2) = 1 / 2"
proof -
  have "round_to_double (1 / 2) =
      of_int (round_half_even (1 / 2 / 2 powi (- 1 - 52))) * 2 powi (- 1 - 52)"
    by (rule round_to_double_at) (simp_all add: power_int_minus)
  then show ?thesis by (simp add: round_half_even_def power_int_minus)
qed

lemma round_to_double_eighth: "round_to_double (1 / 8) = 1 / 8"
proof -
  have "round_to_double (1 / 8) =
      of_int (round_half_even (1 / 8 / 2 powi (- 3 - 52))) * 2 powi (- 3 - 52)"
    by (rule round_to_double_at) (simp_all add: power_int_minus)
  then show ?thesis by (simp add: round_half_even_def power_int_minus)
qed

lemma py_round_half: "py_round (1 / 2) 4 = 1 / 2"
  by (simp add: py_round_def round_half_even_def round_to_double_half)

lemma py_round_eighth: "py_round (1 / 8) 3 = 1 / 8"
  by (simp add: py_round_def round_half_even_def round_to_double_eighth)

text \<open>An integer below \<open>2^53\<close> in magnitude is a double.\<close>

lemma round_half_even_of_int: "round_half_even (of_int m) = m"
  by (simp add: round_half_even_def)

lemma floor_log2_upper:
  assumes "0 < x"
  shows "x < 2 powi (\<lfloor>log 2 x\<rfloor> + 1)"
proof -
  have "x < 2 powr (of_int \<lfloor>log 2 x\<rfloor> + 1)"
    using floor_log_eq_powr_iff [of x 2 "\<lfloor>log 2 x\<rfloor>"] assms by simp
  then show ?thesis using powr_powi [of "\<lfloor>log 2 x\<rfloor> + 1"] by simp
qed

lemma int_to_double_exact:
  assumes "\<bar>n\<bar> < 2 ^ 53"
  shows "int_to_double n = of_int n"
proof (cases "n = 0")
  case True
  then show ?thesis by (simp add: int_to_double_def round_to_double_zero)
next
  case False
  define x :: real where "x = of_int n"
  define k where "k = \<lfloor>log 2 \<bar>x\<bar>\<rfloor>"
  have x1: "1 \<le> \<bar>x\<bar>" using False by (simp add: x_def flip: of_int_abs)
  have "\<bar>x\<bar> < of_int (2 ^ 53)" unfolding x_def using assms by (simp only: flip: of_int_abs)
  then have x53: "\<bar>x\<bar> < 2 powi 53" by simp
  have pos: "0 < \<bar>x\<bar>" using x1 by simp
  have lo: "2 powi k \<le> \<bar>x\<bar>" unfolding k_def using pos by (rule floor_log2_bounds)
  have hi: "\<bar>x\<bar> < 2 powi (k + 1)" unfolding k_def using pos by (rule floor_log2_upper)
  have k0: "0 \<le> k"
  proof (rule ccontr)
    assume "\<not> 0 \<le> k"
    then have "k + 1 \<le> 0" by simp
    then have "(2::real) powi (k + 1) \<le> 2 powi 0" by (rule power_int_increasing) simp
    with x1 hi show False by simp
  qed
  have k52: "k \<le> 52"
  proof (rule ccontr)
    assume "\<not> k \<le> 52"
    then have "53 \<le> k" by simp
    then have "(2::real) powi 53 \<le> 2 powi k" by (rule power_int_increasing) simp
    with lo x53 show False by linarith
  qed
  define j where "j = nat (52 - k)"
  have e: "k - 52 = - int j" using k52 by (simp add: j_def)
  have p: "(2::real) powi (k - 52) = inverse (2 ^ j)"
    unfolding e by (simp add: power_int_minus)
  have "x / 2 powi (k - 52) = of_int (n * 2 ^ j)"
    unfolding p by (simp add: x_def divide_inverse)
  then have "round_half_even (x / 2 powi (k - 52)) = n * 2 ^ j"
    by (simp only: round_half_even_of_int)
  moreover have "round_to_double x =
      of_int (round_half_even (x / 2 powi (k - 52))) * 2 powi (k - 52)"
    using lo hi by (rule round_to_double_at)
  ultimately have "round_to_double x = of_int (n * 2 ^ j) * inverse (2 ^ j)"
    by (simp only: p)
  then show ?thesis by (simp add: int_to_double_def x_def)
qed

section \<open>The simulator backend\<close>

lemma predict_not_loaded:
  "\<not> loaded ms \<Longrightarrow> predict ms base img = Inl (RuntimeError ''Model not loaded'')"
  by (simp add: predict_def)

text \<open>
  The simulated probability stays well inside \<open>[0, 1]\<close>: the exact value lies in
  \<open>[0.3, 0.7]\<close> and the four roundings on the way move it by less than a hundredth.
\<close>

lemma simulator_probability_bounds:
  assumes "0 \<le> base" and "base < 1"
  shows "1 / 4 \<le> py_round (float_add (round_to_double (3 / 10))
                     (float_mul (round_to_double (4 / 10)) base)) 4"
    and "py_round (float_add (round_to_double (3 / 10))
                     (float_mul (round_to_double (4 / 10)) base)) 4 \<le> 3 / 4"
proof -
  define c3 where "c3 = round_to_double (3 / 10)"
  define c4 where "c4 = round_to_double (4 / 10)"
  define t where "t = float_mul c4 base"
  define s where "s = float_add c3 t"
  have c3: "297 / 1000 \<le> c3" "c3 \<le> 303 / 1000"
    using round_to_double_coarse [of "3 / 10" "3 / 10" "3 / 10"] by (simp_all add: c3_def)
  have c4: "0 \<le> c4" "c4 \<le> 404 / 1000"
    using round_to_double_coarse [of "4 / 10" "4 / 10" "4 / 10"] by (simp_all add: c4_def)
  have "c4 * base \<le> c4 * 1" using assms c4(1) by (intro mult_left_mono) simp_all
  then have prod: "0 \<le> c4 * base" "c4 * base \<le> 404 / 1000" using assms(1) c4 by simp_all
  have t: "0 \<le> t" "t \<le> 41 / 100"
    using round_to_double_coarse [OF order_refl prod] by (simp_all add: t_def float_mul_def)
  have sum: "297 / 1000 \<le> c3 + t" "c3 + t \<le> 713 / 1000" using c3 t by simp_all
  have s: "2940 / 10000 \<le> s" "s \<le> 7202 / 10000"
    using round_to_double_coarse [OF _ sum] by (simp_all add: s_def float_add_def)
  have "of_int 2940 / 10000 \<le> s" and "s \<le> of_int 7202 / 10000" using s by simp_all
  from py_round_4_bounds [OF _ this]
  have "2940 / 10000 * (1 - 1 / 2 ^ 53) \<le> py_round s 4"
    and "py_round s 4 \<le> 7202 / 10000 * (1 + 1 / 2 ^ 53)" by simp_all
  then have "1 / 4 \<le> py_round s 4" and "py_round s 4 \<le> 3 / 4" by simp_all
  then show "1 / 4 \<le> py_round (float_add (round_to_double (3 / 10))
                     (float_mul (round_to_double (4 / 10)) base)) 4"
    and "py_round (float_add (round_to_double (3 / 10))
                     (float_mul (round_to_double (4 / 10)) base)) 4 \<le> 3 / 4"
    by (simp_all add: s_def t_def c3_def c4_def)
qed

text \<open>
  Claim C4.  A loaded service whose backend is not \<open>torch\<close> is the simulator.  For every
  value \<open>base\<close> that \<open>random.random()\<close> can draw (\<open>0 \<le> base < 1\<close>), \<open>predict\<close> returns a
  result; its probability is a finite number in \<open>[0, 1]\<close>, its finding is
  "suspicious lesion" exactly when the probability is at least \<open>0.5\<close>, and
  "no acute findings" exactly when it is below.
\<close>

theorem predict_simulator:
  assumes "backend ms \<noteq> ''torch''" and "loaded ms" and "0 \<le> base" and "base < 1"
  shows "\<exists>r p. predict ms base img = Inr r \<and> probability r = Finite p \<and>
               0 \<le> p \<and> p \<le> 1 \<and>
               (primary_finding r = ''suspicious lesion'' \<longleftrightarrow> 1 / 2 \<le> p) \<and>
               (primary_finding r = ''no acute findings'' \<longleftrightarrow> p < 1 / 2)"
proof -
  let ?p = "py_round (float_add (round_to_double (3 / 10))
                     (float_mul (round_to_double (4 / 10)) base)) 4"
  let ?r = "\<lparr>probability = Finite ?p,
             primary_finding = (if 1 / 2 \<le> ?p then ''suspicious lesion''
                                else ''no acute findings'')\<rparr>"
  have run: "predict ms base img = Inr ?r"
    using assms(1,2) by (simp add: predict_def)
  have "1 / 4 \<le> ?p" and "?p \<le> 3 / 4"
    using simulator_probability_bounds [OF assms(3,4)] by simp_all
  then have "0 \<le> ?p" and "?p \<le> 1" by simp_all
  with run show ?thesis by auto
qed

theorem predict_simulator_witness:
  "backend simulate_service \<noteq> ''torch'' \<and> loaded simulate_service \<and>
   (0::real) \<le> 1 / 4 \<and> (1 / 4 :: real) < 1 \<and>
   (\<exists>r p. predict simulate_service (1 / 4) (Image ''L'' (0, 0) []) = Inr r \<and> probability r = Finite p \<and>
          0 \<le> p \<and> p \<le> 1 \<and>
          (primary_finding r = ''suspicious lesion'' \<longleftrightarrow> 1 / 2 \<le> p) \<and>
          (primary_finding r = ''no acute findings'' \<longleftrightarrow> p < 1 / 2))"
proof -
  have a: "backend simulate_service \<noteq> ''torch''" and b: "loaded simulate_service"
    by (simp_all add: simulate_service_def)
  have c: "(0::real) \<le> 1 / 4" and d: "(1 / 4 :: real) < 1" by simp_all
  from a b c d predict_simulator [OF a b c d, of "Image ''L'' (0, 0) []"] show ?thesis by blast
qed

section \<open>The probability of a prediction\<close>

lemma clamp_range:
  "\<exists>p. py_max (Finite 0) (py_min (Finite 1) out) = Finite p \<and> 0 \<le> p \<and> p \<le> 1"
  by (cases out) (auto simp: py_max_def py_min_def)

text \<open>A network that returns NaN is reported with probability 1.\<close>

lemma clamp_nan: "py_max (Finite 0) (py_min (Finite 1) NaN) = Finite 1"
  by (simp add: py_max_def py_min_def)

lemma predict_range:
  assumes "predict ms base img = Inr pred" and "0 \<le> base" and "base < 1"
  shows "\<exists>p. probability pred = Finite p \<and> 0 \<le> p \<and> p \<le> 1"
proof (cases "backend ms = ''torch''")
  case True
  with assms(1) obtain out where "probability pred = py_max (Finite 0) (py_min (Finite 1) out)"
    by (auto simp: predict_def split: if_splits option.splits model_obj.splits sum.splits)
  then show ?thesis using clamp_range [of out] by simp
next
  case False
  let ?p = "py_round (float_add (round_to_double (3 / 10))
                     (float_mul (round_to_double (4 / 10)) base)) 4"
  from False assms(1) have "probability pred = Finite ?p"
    by (auto simp: predict_def split: if_splits)
  moreover from simulator_probability_bounds [OF assms(2,3)]
  have "0 \<le> ?p" "?p \<le> 1"
    by simp_all
  ultimately show ?thesis by simp
qed

lemma fallback_probability_bounds:
  assumes "1 / 100 \<le> u" and "u \<le> 99 / 100"
  shows "0 \<le> py_round u 4" and "py_round u 4 \<le> 1"
proof -
  have "of_int 100 / 10000 \<le> u" and "u \<le> of_int 9900 / 10000" using assms by simp_all
  from py_round_4_bounds [OF _ this]
  have "100 / 10000 * (1 - 1 / 2 ^ 53) \<le> py_round u 4"
    and "py_round u 4 \<le> 9900 / 10000 * (1 + 1 / 2 ^ 53)" by simp_all
  then show "0 \<le> py_round u 4" and "py_round u 4 \<le> 1" by simp_all
qed

text \<open>
  Claim C3.  Whenever \<open>predict_scan\<close> answers with a result, on whichever path (simulator,
  torch delegate, or the substitute after a decode failure), and the random draws are
  what \<open>random.random()\<close> and \<open>random.uniform(0.01, 0.99)\<close> can return, the reported
  probability is a finite number in \<open>[0, 1]\<close>.
\<close>

theorem predict_scan_probability_range:
  assumes "fst (predict_scan env denv menv rq st file cu) = Inr r"
    and "0 \<le> rand_random rq" and "rand_random rq < 1"
    and "1 / 100 \<le> rand_uniform rq" and "rand_uniform rq \<le> 99 / 100"
  shows "\<exists>p. probability_malignancy r = Finite p \<and> 0 \<le> p \<and> p \<le> 1"
proof -
  from assms(1) consider
    (model) ms img pred where "predict ms (rand_random rq) img = Inr pred"
      "probability_malignancy r = probability pred"
  | (fallback) "probability_malignancy r = Finite (py_round (rand_uniform rq) 4)"
    by (auto simp: predict_scan_def Let_def split: if_splits sum.splits option.splits prod.splits)
  then show ?thesis
  proof cases
    case model
    from predict_range [OF model(1) assms(2,3)] model(2) show ?thesis by simp
  next
    case fallback
    from fallback_probability_bounds [OF assms(4,5)] fallback show ?thesis by simp
  qed
qed

theorem predict_scan_probability_range_witness:
  "fst (predict_scan demo_main_env plain_decode_env demo_model_env demo_request nan_server
         png_upload doc_identity) =
     Inr \<lparr>audit_id = ''a7'', user_id = ''doc_user'', scan_modality = ''CT'',
          filename = ''scan.png'', diag_primary_finding = ''suspicious lesion'',
          probability_malignancy = Finite 1, processing_time_seconds = 1 / 8\<rparr> \<and>
   0 \<le> rand_random demo_request \<and> rand_random demo_request < 1 \<and>
   1 / 100 \<le> rand_uniform demo_request \<and> rand_uniform demo_request \<le> 99 / 100 \<and>
   (\<exists>p. Finite 1 = Finite p \<and> 0 \<le> p \<and> p \<le> 1)"
proof -
  have fn: "effective_filename demo_request png_upload = ''scan.png''"
    by (simp add: effective_filename_def png_upload_def)
  have path: "saved_path demo_main_env ''scan.png'' = ''/srv/oncoscan_webapp/uploads/scan.png''"
    and dir: "abspath (getcwd demo_main_env) (upload_dir demo_main_env) =
                ''/srv/oncoscan_webapp/uploads''"
    by code_simp+
  have dec: "load_image_from_bytes plain_decode_env (contents png_upload) ''scan.png'' =
               Inr (Image ''RGB'' (1, 1) (map of_char ''abc''), ''CT'')"
    by (simp add: load_image_from_bytes_def plain_decode_env_def png_upload_def lower_def
        lower_char_def endswith_def)
  have ms: "get_model_service demo_model_env (MODEL_SERVICE nan_server) = Inr nan_service"
    by (simp add: get_model_service_def nan_server_def)
  have io: "os_error demo_main_env p = None" for p
    by (simp add: demo_main_env_def)
  have op: "open_wb demo_main_env ''/srv/oncoscan_webapp/uploads/scan.png'' = None"
    unfolding open_wb_def dir io by code_simp
  have pr: "predict nan_service base img =
              Inr \<lparr>probability = Finite 1, primary_finding = ''suspicious lesion''\<rparr>" for base img
    by (simp add: predict_def nan_service_def clamp_nan)
  have rq: "elapsed demo_request = 1 / 8" "uuid_audit demo_request = ''a7''"
    "cu_user_id doc_identity = ''doc_user''"
    by (simp_all add: demo_request_def doc_identity_def)
  have run: "fst (predict_scan demo_main_env plain_decode_env demo_model_env demo_request
         nan_server png_upload doc_identity) =
     Inr \<lparr>audit_id = ''a7'', user_id = ''doc_user'', scan_modality = ''CT'',
          filename = ''scan.png'', diag_primary_finding = ''suspicious lesion'',
          probability_malignancy = Finite 1, processing_time_seconds = 1 / 8\<rparr>"
    by (simp add: predict_scan_def fn path io op dec ms pr rq py_round_eighth Let_def)
  have r: "0 \<le> rand_random demo_request" "rand_random demo_request < 1"
    "1 / 100 \<le> rand_uniform demo_request" "rand_uniform demo_request \<le> 99 / 100"
    by (simp_all add: demo_request_def)
  from predict_scan_probability_range [OF run r] run r show ?thesis by simp
qed

section \<open>Decode failures\<close>

text \<open>
  Claim C2, as stated, fails: a decode error is swallowed, but the request goes on to
  obtain the model service outside the \<open>try\<close> block.  With the torch backend selected
  where torch is missing, an upload that cannot be decoded ends in \<open>RuntimeError\<close>, not in a
  response.
\<close>

theorem predict_scan_fails_after_decode_error:
  "load_image_from_bytes plain_decode_env (contents fake_upload)
       (effective_filename demo_request fake_upload) = Inl (OtherError ''UnidentifiedImageError'') \<and>
   fst (predict_scan demo_main_env plain_decode_env torch_missing_env demo_request empty_server
         fake_upload doc_identity) =
     Inl (RuntimeError ''PyTorch not available but ONCOSCAN_MODEL_BACKEND=torch'')"
proof -
  have fn: "effective_filename demo_request fake_upload = ''scan.png''"
    by (simp add: effective_filename_def fake_upload_def)
  have path: "saved_path demo_main_env ''scan.png'' = ''/srv/oncoscan_webapp/uploads/scan.png''"
    and dir: "abspath (getcwd demo_main_env) (upload_dir demo_main_env) =
                ''/srv/oncoscan_webapp/uploads''"
    by code_simp+
  have io: "os_error demo_main_env p = None" for p
    by (simp add: demo_main_env_def)
  have op: "open_wb demo_main_env ''/srv/oncoscan_webapp/uploads/scan.png'' = None"
    unfolding open_wb_def dir io by code_simp
  have dec: "load_image_from_bytes plain_decode_env (contents fake_upload) ''scan.png'' =
               Inl (OtherError ''UnidentifiedImageError'')"
    by (simp add: load_image_from_bytes_def plain_decode_env_def fake_upload_def lower_def
        lower_char_def endswith_def)
  have ms: "get_model_service torch_missing_env (MODEL_SERVICE empty_server) =
              Inl (RuntimeError ''PyTorch not available but ONCOSCAN_MODEL_BACKEND=torch'')"
    by (simp add: get_model_service_def ModelService_def load_def torch_missing_env_def
        environ_get_def lower_def lower_char_def empty_server_def)
  have "fst (predict_scan demo_main_env plain_decode_env torch_missing_env demo_request
         empty_server fake_upload doc_identity) =
     Inl (RuntimeError ''PyTorch not available but ONCOSCAN_MODEL_BACKEND=torch'')"
    by (simp add: predict_scan_def fn path io op ms Let_def)
  with dec fn show ?thesis by simp
qed

text \<open>
  Claim C2, amended.  When decoding the upload raises (whatever the error), that error is
  swallowed; if the other steps of the pipeline do not fail (the upload directory is
  created, the saved path opens for writing, the model service is available and the audit
  file opens), the request succeeds: the modality is "Unknown", the finding is
  "no acute findings" and the probability is the synthetic draw, rounded to four places.
\<close>

theorem predict_scan_decode_failure:
  assumes "load_image_from_bytes denv (contents file) (effective_filename rq file) = Inl e"
    and "os_error env (upload_dir env) = None"
    and "open_wb env (saved_path env (effective_filename rq file)) = None"
    and "get_model_service menv (MODEL_SERVICE st) = Inr ms"
    and "os_error env (audit_csv_path env) = None"
  shows "fst (predict_scan env denv menv rq st file cu) =
           Inr \<lparr>audit_id = uuid_audit rq, user_id = cu_user_id cu, scan_modality = ''Unknown'',
                filename = effective_filename rq file,
                diag_primary_finding = ''no acute findings'',
                probability_malignancy = Finite (py_round (rand_uniform rq) 4),
                processing_time_seconds = py_round (elapsed rq) 3\<rparr>"
  using assms by (simp add: predict_scan_def Let_def)

theorem predict_scan_decode_failure_witness:
  "load_image_from_bytes plain_decode_env (contents fake_upload)
       (effective_filename demo_request fake_upload) = Inl (OtherError ''UnidentifiedImageError'') \<and>
   os_error demo_main_env (upload_dir demo_main_env) = None \<and>
   open_wb demo_main_env (saved_path demo_main_env (effective_filename demo_request fake_upload))
     = None \<and>
   get_model_service demo_model_env (MODEL_SERVICE empty_server) = Inr simulate_service \<and>
   os_error demo_main_env (audit_csv_path demo_main_env) = None \<and>
   fst (predict_scan demo_main_env plain_decode_env demo_model_env demo_request empty_server
         fake_upload doc_identity) =
     Inr \<lparr>audit_id = ''a7'', user_id = ''doc_user'', scan_modality = ''Unknown'',
          filename = ''scan.png'', diag_primary_finding = ''no acute findings'',
          probability_malignancy = Finite (1 / 2), processing_time_seconds = 1 / 8\<rparr>"
proof -
  have fn: "effective_filename demo_request fake_upload = ''scan.png''"
    by (simp add: effective_filename_def fake_upload_def)
  have path: "saved_path demo_main_env ''scan.png'' = ''/srv/oncoscan_webapp/uploads/scan.png''"
    and dir: "abspath (getcwd demo_main_env) (upload_dir demo_main_env) =
                ''/srv/oncoscan_webapp/uploads''"
    by code_simp+
  have io: "os_error demo_main_env p = None" for p
    by (simp add: demo_main_env_def)
  have a: "load_image_from_bytes plain_decode_env (contents fake_upload)
       (effective_filename demo_request fake_upload) = Inl (OtherError ''UnidentifiedImageError'')"
    by (simp add: fn load_image_from_bytes_def plain_decode_env_def fake_upload_def lower_def
        lower_char_def endswith_def)
  have b: "os_error demo_main_env (upload_dir demo_main_env) = None" by (rule io)
  have "open_wb demo_main_env ''/srv/oncoscan_webapp/uploads/scan.png'' = None"
    unfolding open_wb_def dir io by code_simp
  then have c: "open_wb demo_main_env
      (saved_path demo_main_env (effective_filename demo_request fake_upload)) = None"
    by (simp add: fn path)
  have d: "get_model_service demo_model_env (MODEL_SERVICE empty_server) = Inr simulate_service"
    by (simp add: get_model_service_def ModelService_def load_def demo_model_env_def
        environ_get_def lower_def lower_char_def simulate_service_def empty_server_def)
  have e: "os_error demo_main_env (audit_csv_path demo_main_env) = None" by (rule io)
  have rq: "rand_uniform demo_request = 1 / 2" "elapsed demo_request = 1 / 8"
    "uuid_audit demo_request = ''a7''" "cu_user_id doc_identity = ''doc_user''"
    by (simp_all add: demo_request_def doc_identity_def)
  from predict_scan_decode_failure [OF a b c d e, of doc_identity] a b c d e
  show ?thesis by (simp add: rq fn py_round_half py_round_eighth)
qed

section \<open>Role update of an unknown user\<close>

lemma find_None_set: "find P xs = None \<longleftrightarrow> (\<forall>x \<in> set xs. \<not> P x)"
  by (induction xs) auto

text \<open>
  Claim C7.  When no row of the User table carries the username, the role update invoked
  by an admin answers 404 "User not found" and the store it leaves is the store it found.
\<close>

theorem admin_set_role_unknown_user:
  assumes "cu_role cu = ''admin''" and "uname \<notin> set (map username (users s))"
  shows "admin_set_role cu s uname rl = (Inl (HTTPException 404 ''User not found''), s)"
proof -
  from assms(2) have "get_user_by_username s uname = None"
    by (auto simp: get_user_by_username_def find_None_set)
  then show ?thesis using assms(1)
    by (simp add: admin_set_role_def require_admin_def set_user_role_def)
qed

theorem admin_set_role_unknown_user_witness:
  "cu_role admin_identity = ''admin'' \<and>
   ''bob'' \<notin> set (map username (users store_alice)) \<and>
   admin_set_role admin_identity store_alice ''bob'' ''admin'' =
     (Inl (HTTPException 404 ''User not found''), store_alice)"
proof -
  have a: "cu_role admin_identity = ''admin''" by (simp add: admin_identity_def)
  have b: "''bob'' \<notin> set (map username (users store_alice))"
    by (simp add: store_alice_def alice_def)
  from a b admin_set_role_unknown_user [OF a b, of "''admin''"] show ?thesis by blast
qed

section \<open>The tail of the audit log\<close>

lemma slice_from_neg:
  "0 < limit \<Longrightarrow> slice_from xs (- limit) = drop (length xs - nat limit) xs"
  by (auto simp: slice_from_def Let_def max_def intro!: arg_cong [where f = "\<lambda>n. drop n xs"])

text \<open>
  For a positive limit the route returns the last \<open>min(limit, n)\<close> rows in file order.
\<close>

lemma admin_list_audits_positive_limit:
  assumes "cu_role cu = ''admin''" and "0 < limit"
  shows "admin_list_audits cu limit (Some rows) =
           Inr (drop (length rows - min (nat limit) (length rows)) rows)"
  using assms by (simp add: admin_list_audits_def require_admin_def slice_from_neg min_def)

text \<open>
  Claim C6.  The claim asks for the last \<open>min(limit, n)\<close> rows for every non-negative
  limit, hence for no row at limit 0.  The slice \<open>all_rows[-limit:]\<close> is \<open>all_rows[0:]\<close>
  there: on a file of two rows, limit 0 returns both.
\<close>

theorem admin_list_audits_limit_zero:
  "admin_list_audits admin_identity 0 (Some [row1, row2]) = Inr [row1, row2]"
  by (simp add: admin_list_audits_def require_admin_def admin_identity_def slice_from_def)

section \<open>Login\<close>

lemma find_map_disabled:
  "find (\<lambda>r. username r = u) (map (\<lambda>r. r\<lparr>disabled := d r\<rparr>) rs) =
     map_option (\<lambda>r. r\<lparr>disabled := d r\<rparr>) (find (\<lambda>r. username r = u) rs)"
  by (induction rs) auto

lemma login_ignores_disabled:
  "login_for_access_token env (map_option (set_disabled d) db) uname password =
     login_for_access_token env db uname password"
proof (cases db)
  case None
  then show ?thesis by simp
next
  case (Some s)
  have h: "get_user_by_username (set_disabled d s) u =
          map_option (\<lambda>r. r\<lparr>disabled := d r\<rparr>) (get_user_by_username s u)" for u
    by (simp add: get_user_by_username_def set_disabled_def find_map_disabled)
  show ?thesis
  proof (cases uname)
    case None
    then show ?thesis by (simp add: login_for_access_token_def)
  next
    case u: (Some u)
    show ?thesis
    proof (cases password)
      case None
      then show ?thesis using u by (simp add: login_for_access_token_def)
    next
      case pw: (Some pw)
      show ?thesis
        by (cases "get_user_by_username s u")
           (simp_all add: login_for_access_token_def h u pw Some split: sum.split bool.split)
    qed
  qed
qed

lemma login_fallback_rejects:
  assumes "u = ''doc_user'' \<Longrightarrow> verify_password env pw (demo_hash env) = Inr False"
  shows "(case FAKE_USERS_DB env u of
            None \<Rightarrow> Inl (HTTPException 401 ''Incorrect username or password'')
          | Some user \<Rightarrow>
              (case verify_password env pw (hashed_password user) of
                 Inl e \<Rightarrow> Inl e
               | Inr False \<Rightarrow> Inl (HTTPException 401 ''Incorrect username or password'')
               | Inr True \<Rightarrow> Inr (create_access_token env u None, ''bearer''))) =
         Inl (HTTPException 401 ''Incorrect username or password'')"
  using assms by (simp add: FAKE_USERS_DB_def)

lemma login_rejects:
  assumes "u \<noteq> []" and "pw \<noteq> []"
    and stored: "\<And>s r. db = Some s \<Longrightarrow> get_user_by_username s u = Some r \<Longrightarrow>
                   verify_password env pw (password_hash r) \<noteq> Inr True"
    and fallback: "u = ''doc_user'' \<Longrightarrow> verify_password env pw (demo_hash env) = Inr False"
  shows "login_for_access_token env db (Some u) (Some pw) =
           Inl (HTTPException 401 ''Incorrect username or password'')"
proof -
  note fb = login_fallback_rejects [of u env pw, OF fallback]
  show ?thesis
  proof (cases db)
    case None
    then show ?thesis using assms(1,2) fb by (simp add: login_for_access_token_def)
  next
    case (Some s)
    show ?thesis
    proof (cases "get_user_by_username s u")
      case None
      then show ?thesis using assms(1,2) fb Some by (simp add: login_for_access_token_def)
    next
      case (Some r)
      from stored [OF \<open>db = Some s\<close> Some]
      have "(case verify_password env pw (password_hash r) of
               Inr True \<Rightarrow> Some (create_access_token env (username r) None, ''bearer'')
             | _ \<Rightarrow> None) = None"
        by (auto split: sum.split bool.split)
      then show ?thesis using assms(1,2) fb \<open>db = Some s\<close> Some
        by (simp add: login_for_access_token_def)
    qed
  qed
qed

text \<open>A row whose password verifies gets a token, whatever its \<open>disabled\<close> flag says.\<close>

lemma login_stored_row_gets_token:
  assumes "u \<noteq> []" and "pw \<noteq> []" and "get_user_by_username s u = Some r"
    and "verify_password env pw (password_hash r) = Inr True"
  shows "login_for_access_token env (Some s) (Some u) (Some pw) =
           Inr (create_access_token env (username r) None, ''bearer'')"
  using assms by (simp add: login_for_access_token_def)

text \<open>
  Claim C1.  A login whose password does not verify must fail with 401, and a login that
  matches a disabled identity must fail with InactiveAccount instead of returning a token.
  The route reads no \<open>disabled\<close> flag, although the lookup of \<open>get_current_user\<close> does on
  both of its paths: the stored row of \<open>mallory\<close> is disabled, and the login with the
  password of that row returns a token.
\<close>

theorem login_disabled_user_gets_token:
  "get_user_by_username store_mallory ''mallory'' = Some mallory \<and> disabled mallory \<and>
   login_for_access_token demo_auth_env (Some store_mallory) (Some ''mallory'') (Some ''letmein'')
     = Inr (''mallory'', ''bearer'')"
  by (simp add: login_for_access_token_def get_user_by_username_def store_mallory_def
      mallory_def demo_auth_env_def verify_password_def create_access_token_def)

text \<open>
  The other half holds.  For a login request with a non-empty username and password: when
  the password verifies neither against the hash of the stored row of that username (if
  the database answers and holds one) nor against the hash of the in-memory identity (if
  the username is its name), the login fails with 401 "Incorrect username or password".
\<close>

lemma login_invalid_credentials:
  assumes "u \<noteq> []" and "pw \<noteq> []"
    and "\<And>s r. db = Some s \<Longrightarrow> get_user_by_username s u = Some r \<Longrightarrow>
           verify_password env pw (password_hash r) \<noteq> Inr True"
    and "u = ''doc_user'' \<Longrightarrow> verify_password env pw (demo_hash env) = Inr False"
  shows "login_for_access_token env db (Some u) (Some pw) =
           Inl (HTTPException 401 ''Incorrect username or password'')"
  using login_rejects [OF assms] by simp

lemma login_wrong_password_rejected:
  "get_user_by_username store_alice ''alice'' = Some alice \<and>
   verify_password demo_auth_env ''wrong'' (password_hash alice) = Inr False \<and>
   login_for_access_token demo_auth_env (Some store_alice) (Some ''alice'') (Some ''wrong'') =
     Inl (HTTPException 401 ''Incorrect username or password'')"
proof -
  have a: "''alice'' \<noteq> []" and b: "''wrong'' \<noteq> []" by simp_all
  have g: "get_user_by_username store_alice ''alice'' = Some alice"
    by (simp add: get_user_by_username_def store_alice_def alice_def)
  have v: "verify_password demo_auth_env ''wrong'' (password_hash alice) = Inr False"
    by (simp add: verify_password_def demo_auth_env_def alice_def)
  have c: "verify_password demo_auth_env ''wrong'' (password_hash r) \<noteq> Inr True"
    if "Some store_alice = Some s" and "get_user_by_username s ''alice'' = Some r" for s r
    using that g v by simp
  have f: "verify_password demo_auth_env ''wrong'' (demo_hash demo_auth_env) = Inr False"
    if "''alice'' = ''doc_user''"
    using that by simp
  from login_invalid_credentials [of "''alice''" "''wrong''" "Some store_alice" demo_auth_env,
      OF a b c f] g v
  show ?thesis by simp
qed

section \<open>The company profile\<close>

lemma upsert_sequence_Nil: "upsert_sequence s [] = s"
  by (simp add: upsert_sequence_def)

lemma upsert_sequence_Cons:
  "upsert_sequence s ((now, nm, addr, email, logo) # posts) =
     upsert_sequence (snd (upsert_company_profile now s nm addr email logo)) posts"
  by (simp add: upsert_sequence_def)

lemma upsert_sequence_snoc:
  "upsert_sequence s (posts @ [(now, nm, addr, email, logo)]) =
     snd (upsert_company_profile now (upsert_sequence s posts) nm addr email logo)"
  by (simp add: upsert_sequence_def)

text \<open>On an empty table the upsert creates the row; on a single row it rewrites its fields.\<close>

lemma upsert_creates:
  "profiles s = [] \<Longrightarrow>
   profiles (snd (upsert_company_profile now s nm addr email logo)) =
     [\<lparr>company_pk = 1, name = nm, address = Some addr, contact_email = Some email,
       logo_url = Some logo, company_created_at = now\<rparr>]"
  by (simp add: upsert_company_profile_def fresh_pk_def Let_def)

lemma upsert_mutates:
  "profiles s = [p] \<Longrightarrow>
   profiles (snd (upsert_company_profile now s nm addr email logo)) =
     [p\<lparr>name := nm, address := Some addr, contact_email := Some email, logo_url := Some logo\<rparr>]"
  by (simp add: upsert_company_profile_def Let_def)

lemma upsert_sequence_single:
  "profiles s = [p] \<Longrightarrow>
   \<exists>p'. profiles (upsert_sequence s posts) = [p'] \<and> company_pk p' = company_pk p \<and>
        company_created_at p' = company_created_at p \<and>
        (posts \<noteq> [] \<longrightarrow> (name p', address p', contact_email p', logo_url p') =
           (case last posts of
              (now, nm, addr, email, logo) \<Rightarrow> (nm, Some addr, Some email, Some logo)))"
proof (induction posts rule: rev_induct)
  case Nil
  then show ?case by (simp add: upsert_sequence_Nil)
next
  case (snoc x posts)
  obtain now nm addr email logo where x: "x = (now, nm, addr, email, logo)"
    by (cases x) auto
  from snoc obtain p' where p': "profiles (upsert_sequence s posts) = [p']"
    "company_pk p' = company_pk p" "company_created_at p' = company_created_at p"
    by auto
  show ?case using upsert_mutates [OF p'(1), of now nm addr email logo] p'(2,3)
    by (simp add: x upsert_sequence_snoc)
qed

text \<open>
  Claim C8.  Starting from an empty CompanyProfile table, any sequence of upserts leaves
  at most one row.  After a non-empty sequence the table is exactly one row: it has the
  primary key and the creation time the first upsert gave it and the fields of the most
  recent upsert, and reading the profile returns that row, so its name is the name of the
  most recent POST.
\<close>

theorem company_profile_single_row:
  assumes "profiles s = []" and "last (post # posts) = (now, nm, addr, email, logo)"
  shows "length (profiles (upsert_sequence s any_posts)) \<le> 1 \<and>
         profiles (upsert_sequence s (post # posts)) =
           [\<lparr>company_pk = 1, name = nm, address = Some addr, contact_email = Some email,
             logo_url = Some logo, company_created_at = fst post\<rparr>] \<and>
         get_company_profile (upsert_sequence s (post # posts)) =
           Some \<lparr>company_pk = 1, name = nm, address = Some addr, contact_email = Some email,
                 logo_url = Some logo, company_created_at = fst post\<rparr>"
proof -
  obtain now0 nm0 addr0 email0 logo0 where post: "post = (now0, nm0, addr0, email0, logo0)"
    by (cases post) auto
  let ?s1 = "snd (upsert_company_profile now0 s nm0 addr0 email0 logo0)"
  let ?p0 = "\<lparr>company_pk = 1, name = nm0, address = Some addr0, contact_email = Some email0,
       logo_url = Some logo0, company_created_at = now0\<rparr>"
  have s1: "profiles ?s1 = [?p0]" using assms(1) by (rule upsert_creates)
  have len: "length (profiles (upsert_sequence s any_posts)) \<le> 1"
  proof (cases any_posts)
    case Nil
    then show ?thesis using assms(1) by (simp add: upsert_sequence_Nil)
  next
    case (Cons a as)
    obtain n1 n2 n3 n4 n5 where a: "a = (n1, n2, n3, n4, n5)" by (cases a) auto
    have "profiles (snd (upsert_company_profile n1 s n2 n3 n4 n5)) =
            [\<lparr>company_pk = 1, name = n2, address = Some n3, contact_email = Some n4,
              logo_url = Some n5, company_created_at = n1\<rparr>]"
      using assms(1) by (rule upsert_creates)
    from upsert_sequence_single [OF this, of as] show ?thesis
      by (auto simp: Cons a upsert_sequence_Cons)
  qed
  from upsert_sequence_single [OF s1, of posts]
  obtain p' where p': "profiles (upsert_sequence ?s1 posts) = [p']" "company_pk p' = 1"
    "company_created_at p' = now0"
    "posts \<noteq> [] \<longrightarrow> (name p', address p', contact_email p', logo_url p') =
       (case last posts of
          (now, nm, addr, email, logo) \<Rightarrow> (nm, Some addr, Some email, Some logo))"
    by auto
  have "p' = \<lparr>company_pk = 1, name = nm, address = Some addr, contact_email = Some email,
             logo_url = Some logo, company_created_at = now0\<rparr>"
  proof (cases "posts = []")
    case True
    with p'(1) s1 assms(2) post show ?thesis by (simp add: upsert_sequence_Nil)
  next
    case False
    with p' assms(2) show ?thesis by (cases p') simp
  qed
  with p'(1) have row: "profiles (upsert_sequence s (post # posts)) =
           [\<lparr>company_pk = 1, name = nm, address = Some addr, contact_email = Some email,
             logo_url = Some logo, company_created_at = fst post\<rparr>]"
    by (simp add: post upsert_sequence_Cons)
  from len row show ?thesis by (simp add: get_company_profile_def)
qed

theorem company_profile_single_row_witness:
  "profiles store_alice = [] \<and>
   last [(5 :: nat, ''Acme'', ''1 Main St'', ''info@acme'', ''a.png''),
         (9, ''Onco Ltd'', ''2 High St'', ''info@onco'', ''o.png'')] =
     (9, ''Onco Ltd'', ''2 High St'', ''info@onco'', ''o.png'') \<and>
   length (profiles (upsert_sequence store_alice
      [(5, ''Acme'', ''1 Main St'', ''info@acme'', ''a.png''),
       (9, ''Onco Ltd'', ''2 High St'', ''info@onco'', ''o.png'')])) \<le> 1 \<and>
   get_company_profile (upsert_sequence store_alice
      [(5, ''Acme'', ''1 Main St'', ''info@acme'', ''a.png''),
       (9, ''Onco Ltd'', ''2 High St'', ''info@onco'', ''o.png'')]) =
     Some \<lparr>company_pk = 1, name = ''Onco Ltd'', address = Some ''2 High St'',
           contact_email = Some ''info@onco'', logo_url = Some ''o.png'',
           company_created_at = 5\<rparr>"
proof -
  have a: "profiles store_alice = []" by (simp add: store_alice_def)
  have b: "last [(5::nat, ''Acme'', ''1 Main St'', ''info@acme'', ''a.png''),
         (9, ''Onco Ltd'', ''2 High St'', ''info@onco'', ''o.png'')] =
     (9, ''Onco Ltd'', ''2 High St'', ''info@onco'', ''o.png'')" by simp
  from company_profile_single_row [OF a b,
      of "[(5, ''Acme'', ''1 Main St'', ''info@acme'', ''a.png''),
           (9, ''Onco Ltd'', ''2 High St'', ''info@onco'', ''o.png'')]"] a b
  show ?thesis by simp
qed

section \<open>The in-memory identity and the admin routes\<close>

text \<open>
  Claim C10.  When the token decodes to a subject and the database lookup fails or finds
  no row of that name, an identity that \<open>get_current_user\<close> returns carries the role
  "doctor"; \<open>require_admin\<close> rejects it, and so every admin route and the model reload
  answer 403 "Admin role required" and leave the store and the server as they were.
\<close>

theorem fallback_identity_is_doctor:
  assumes "jwt_decode env token = Some payload" and "sub payload = Some uid"
    and "db = None \<or> (\<exists>s. db = Some s \<and> get_user_by_username s uid = None)"
    and "get_current_user env db token = Inr cu"
  shows "cu_role cu = ''doctor'' \<and>
         require_admin cu = Inl (HTTPException 403 ''Admin role required'') \<and>
         admin_list_users cu s = Inl (HTTPException 403 ''Admin role required'') \<and>
         admin_create_user env cu s user_in =
           (Inl (HTTPException 403 ''Admin role required''), s) \<and>
         admin_set_role cu s uname rl = (Inl (HTTPException 403 ''Admin role required''), s) \<and>
         admin_upsert_company env cu s company_in =
           (Inl (HTTPException 403 ''Admin role required''), s) \<and>
         admin_get_company cu s = Inl (HTTPException 403 ''Admin role required'') \<and>
         admin_list_audits cu limit audit_file =
           Inl (HTTPException 403 ''Admin role required'') \<and>
         reload_model menv st cu = (Inl (HTTPException 403 ''Admin role required''), st)"
proof -
  from assms(3) have blk:
    "(case db of
        None \<Rightarrow> None
      | Some s \<Rightarrow>
          (case get_user_by_username s uid of
             None \<Rightarrow> None
           | Some db_user \<Rightarrow>
               if disabled db_user then None
               else Some \<lparr>cu_user_id = username db_user,
                          cu_username =
                            (case full_name db_user of
                               None \<Rightarrow> username db_user
                             | Some fn \<Rightarrow> if fn = [] then username db_user else fn),
                          cu_role = role db_user\<rparr>)) = None"
    by auto
  from assms(4) have doctor: "cu_role cu = ''doctor''"
    unfolding get_current_user_def assms(1) option.case assms(2) blk
    by (auto split: option.splits if_splits)
  then have ra: "require_admin cu = Inl (HTTPException 403 ''Admin role required'')"
    by (simp add: require_admin_def)
  show ?thesis using doctor
    by (simp add: ra admin_list_users_def admin_create_user_def admin_set_role_def
        admin_upsert_company_def admin_get_company_def admin_list_audits_def reload_model_def)
qed

theorem fallback_identity_is_doctor_witness:
  "jwt_decode demo_auth_env ''doc_user'' = Some \<lparr>sub = Some ''doc_user'', exp = 0\<rparr> \<and>
   sub \<lparr>sub = Some ''doc_user'', exp = 0\<rparr> = Some ''doc_user'' \<and>
   get_current_user demo_auth_env None ''doc_user'' =
     Inr \<lparr>cu_user_id = ''doc_user'', cu_username = ''Dr. Alice Onco'', cu_role = ''doctor''\<rparr> \<and>
   admin_list_audits
     \<lparr>cu_user_id = ''doc_user'', cu_username = ''Dr. Alice Onco'', cu_role = ''doctor''\<rparr>
     50 (Some [row1, row2]) = Inl (HTTPException 403 ''Admin role required'') \<and>
   reload_model demo_model_env empty_server
     \<lparr>cu_user_id = ''doc_user'', cu_username = ''Dr. Alice Onco'', cu_role = ''doctor''\<rparr> =
     (Inl (HTTPException 403 ''Admin role required''), empty_server)"
proof -
  have a: "jwt_decode demo_auth_env ''doc_user'' = Some \<lparr>sub = Some ''doc_user'', exp = 0\<rparr>"
    by (simp add: demo_auth_env_def)
  have b: "sub \<lparr>sub = Some ''doc_user'', exp = 0\<rparr> = Some ''doc_user''" by simp
  have c: "(None :: session option) = None \<or>
           (\<exists>s. None = Some s \<and> get_user_by_username s ''doc_user'' = None)" by simp
  have d: "get_current_user demo_auth_env None ''doc_user'' =
     Inr \<lparr>cu_user_id = ''doc_user'', cu_username = ''Dr. Alice Onco'', cu_role = ''doctor''\<rparr>"
    by (simp add: get_current_user_def demo_auth_env_def FAKE_USERS_DB_def)
  from fallback_identity_is_doctor [OF a b c d, of store_alice _ _ _ _ 50 "Some [row1, row2]" demo_model_env empty_server] a b d
  show ?thesis by simp
qed

section \<open>The DICOM pixel rescaling\<close>










text \<open>
  In double arithmetic \<open>255.0 / 25\<close> is a little below 10.2 and \<open>25 * (255.0 / 25)\<close> is the double
  just below 255; cut to an integer it is 254.
\<close>

lemma quotient_255_25: "float_div 255 25 = 5742089524897382 / 2 ^ 49"
proof -
  have "round_to_double (255 / 25) =
      of_int (round_half_even (255 / 25 / 2 powi (3 - 52))) * 2 powi (3 - 52)"
    by (rule round_to_double_at) simp_all
  also have "(255 / 25 / 2 powi (3 - 52) :: real) = 28710447624486912 / 5"
    by (simp add: power_int_minus)
  also have "round_half_even (28710447624486912 / 5) = 5742089524897382"
    by (simp add: round_half_even_def Let_def)
  finally show ?thesis by (simp add: float_div_def power_int_minus)
qed

lemma product_25: "float_mul 25 (5742089524897382 / 2 ^ 49) = 8972014882652159 / 2 ^ 45"
proof -
  have "round_to_double (25 * (5742089524897382 / 2 ^ 49)) =
      of_int (round_half_even (25 * (5742089524897382 / 2 ^ 49) / 2 powi (7 - 52)))
        * 2 powi (7 - 52)"
    by (rule round_to_double_at) simp_all
  also have "(25 * (5742089524897382 / 2 ^ 49) / 2 powi (7 - 52) :: real) =
      71776119061217275 / 8"
    by (simp add: power_int_minus)
  also have "round_half_even (71776119061217275 / 8) = 8972014882652159"
    by (simp add: round_half_even_def Let_def)
  finally show ?thesis by (simp add: float_mul_def power_int_minus)
qed

lemma maximum_of_25: "astype_uint8_float (float_mul 25 (float_div 255 25)) = 254"
proof -
  have p45: "(2::real) ^ 45 = 35184372088832" by simp
  have m: "float_mul 25 (float_div 255 25) = 8972014882652159 / 35184372088832"
    by (simp only: quotient_255_25 product_25 p45)
  show ?thesis unfolding m by (simp add: astype_uint8_float_def)
qed

lemma dicom_maximum_stored_as_254:
  "load_image_from_bytes (dicom_env_of (row_array (UInt 8) [0, 25])) ''raw'' ''scan.dcm'' =
     Inr (Image ''L'' (2, 1) [0, 254], ''MR'')"
proof -
  have z: "float_mul 0 q = 0" for q
    by (simp add: float_mul_def round_to_double_zero)
  have i: "int_to_double 0 = 0" "int_to_double 25 = 25"
    using int_to_double_exact [of 0] int_to_double_exact [of 25] by simp_all
  have "normalize_to_uint8 (row_array (UInt 8) [0, 25]) = Inr (row_array (UInt 8) [0, 254])"
    by (simp add: normalize_to_uint8_def row_array_def wrap_def i z maximum_of_25
        astype_uint8_float_def [of 0])
  then show ?thesis
    by (simp add: load_image_from_bytes_def dicom_env_of_def lower_def lower_char_def
        endswith_def fromarray_def row_array_def)
qed

text \<open>
  Outside the element type the differences wrap.  In an \<open>int16\<close> array with the elements
  -30000, 0 and 30000 the range 60000 becomes -5536 and the difference 30000 of the middle
  element stays; the quotient \<open>255.0 / -5536\<close> is negative, the product is about -1381.86,
  and the conversion to \<open>uint8\<close> stores 155 where the linear map gives 127.
\<close>

lemma quotient_255_wrapped: "float_div 255 (- 5536) = - (6638253786008535 / 2 ^ 57)"
proof -
  have "round_to_double (255 / (- 5536)) =
      of_int (round_half_even (255 / (- 5536) / 2 powi (- 5 - 52))) * 2 powi (- 5 - 52)"
    by (rule round_to_double_at) (simp_all add: power_int_minus)
  also have "(255 / (- 5536) / 2 powi (- 5 - 52) :: real) = - (1148417904979476480 / 173)"
    by (simp add: power_int_minus)
  also have "round_half_even (- (1148417904979476480 / 173)) = - 6638253786008535"
    by (simp add: round_half_even_def Let_def)
  finally show ?thesis by (simp add: float_div_def power_int_minus)
qed

lemma product_30000_wrapped:
  "float_mul 30000 (- (6638253786008535 / 2 ^ 57)) = - (6077502855842775 / 2 ^ 42)"
proof -
  have "round_to_double (30000 * (- (6638253786008535 / 2 ^ 57))) =
      of_int (round_half_even (30000 * (- (6638253786008535 / 2 ^ 57)) / 2 powi (10 - 52)))
        * 2 powi (10 - 52)"
    by (rule round_to_double_at) (simp_all add: power_int_minus)
  also have "(30000 * (- (6638253786008535 / 2 ^ 57)) / 2 powi (10 - 52) :: real) =
      - (12446725848766003125 / 2048)"
    by (simp add: power_int_minus)
  also have "round_half_even (- (12446725848766003125 / 2048)) = - 6077502855842775"
    by (simp add: round_half_even_def Let_def)
  finally show ?thesis by (simp add: float_mul_def power_int_minus)
qed

lemma product_wrapped_range:
  "float_mul (- 5536) (- (6638253786008535 / 2 ^ 57)) = 8972014882652161 / 2 ^ 45"
proof -
  have "round_to_double (- 5536 * (- (6638253786008535 / 2 ^ 57))) =
      of_int (round_half_even (- 5536 * (- (6638253786008535 / 2 ^ 57)) / 2 powi (7 - 52)))
        * 2 powi (7 - 52)"
    by (rule round_to_double_at) (simp_all add: power_int_minus)
  also have "(- 5536 * (- (6638253786008535 / 2 ^ 57)) / 2 powi (7 - 52) :: real) =
      1148417904979476555 / 128"
    by (simp add: power_int_minus)
  also have "round_half_even (1148417904979476555 / 128) = 8972014882652161"
    by (simp add: round_half_even_def Let_def)
  finally show ?thesis by (simp add: float_mul_def power_int_minus)
qed

lemma wrapped_pixels:
  "astype_uint8_float (float_mul 30000 (float_div 255 (- 5536))) = 155"
  "astype_uint8_float (float_mul (- 5536) (float_div 255 (- 5536))) = 255"
proof -
  have p42: "(2::real) ^ 42 = 4398046511104" and p45: "(2::real) ^ 45 = 35184372088832"
    by simp_all
  have a: "float_mul 30000 (float_div 255 (- 5536)) = - (6077502855842775 / 4398046511104)"
    by (simp only: quotient_255_wrapped product_30000_wrapped p42)
  have b: "float_mul (- 5536) (float_div 255 (- 5536)) = 8972014882652161 / 35184372088832"
    by (simp only: quotient_255_wrapped product_wrapped_range p45)
  show "astype_uint8_float (float_mul 30000 (float_div 255 (- 5536))) = 155"
    unfolding a by (simp add: astype_uint8_float_def)
  show "astype_uint8_float (float_mul (- 5536) (float_div 255 (- 5536))) = 255"
    unfolding b by (simp add: astype_uint8_float_def)
qed

lemma dicom_int16_range_wraps:
  "linear_pixel (- 30000) 30000 0 = 127 \<and>
   load_image_from_bytes (dicom_env_of (row_array (SInt 16) [- 30000, 0, 30000])) ''raw''
       ''scan.dcm'' = Inr (Image ''L'' (3, 1) [0, 155, 255], ''MR'')"
proof -
  have z: "float_mul 0 q = 0" for q
    by (simp add: float_mul_def round_to_double_zero)
  have i: "int_to_double 0 = 0" "int_to_double 30000 = 30000" "int_to_double (- 5536) = - 5536"
    using int_to_double_exact [of 0] int_to_double_exact [of 30000]
      int_to_double_exact [of "- 5536"] by simp_all
  have w: "wrap (SInt 16) 0 = 0" "wrap (SInt 16) 30000 = 30000" "wrap (SInt 16) 60000 = - 5536"
    by (simp_all add: wrap_def)
  have "normalize_to_uint8 (row_array (SInt 16) [- 30000, 0, 30000]) =
          Inr (row_array (UInt 8) [0, 155, 255])"
    by (simp add: normalize_to_uint8_def row_array_def w i z wrapped_pixels
        astype_uint8_float_def [of 0])
  then have "load_image_from_bytes (dicom_env_of (row_array (SInt 16) [- 30000, 0, 30000])) ''raw''
       ''scan.dcm'' = Inr (Image ''L'' (3, 1) [0, 155, 255], ''MR'')"
    by (simp add: load_image_from_bytes_def dicom_env_of_def lower_def lower_char_def
        endswith_def fromarray_def row_array_def)
  moreover have "linear_pixel (- 30000) 30000 0 = 127"
    by (simp add: linear_pixel_def)
  ultimately show ?thesis by simp
qed

text \<open>
  A third axis of one band makes no image: \<open>Image.fromarray\<close> raises, and so does the loader.
\<close>

lemma dicom_single_band_axis_raises:
  "load_image_from_bytes
     (dicom_env_of \<lparr>nd_dtype = UInt 8, nd_shape = [2, 1, 1], nd_data = [0, 25]\<rparr>) ''raw''
     ''scan.dcm'' = Inl (TypeError ''Cannot handle this data type'')"
proof -
  have z: "float_mul 0 q = 0" for q
    by (simp add: float_mul_def round_to_double_zero)
  have i: "int_to_double 0 = 0" "int_to_double 25 = 25"
    using int_to_double_exact [of 0] int_to_double_exact [of 25] by simp_all
  have "normalize_to_uint8 \<lparr>nd_dtype = UInt 8, nd_shape = [2, 1, 1], nd_data = [0, 25]\<rparr> =
          Inr \<lparr>nd_dtype = UInt 8, nd_shape = [2, 1, 1], nd_data = [0, 254]\<rparr>"
    by (simp add: normalize_to_uint8_def wrap_def i z maximum_of_25
        astype_uint8_float_def [of 0])
  then show ?thesis
    by (simp add: load_image_from_bytes_def dicom_env_of_def lower_def lower_char_def
        endswith_def fromarray_def)
qed




section \<open>The path an upload is saved to\<close>

lemma dotdot_free_no_infix: "s = p @ ''..'' @ q \<Longrightarrow> \<not> dotdot_free s"
proof (induction p arbitrary: s)
  case Nil
  then show ?case by simp
next
  case (Cons a p)
  obtain b r where br: "p @ ''..'' @ q = b # r" by (cases "p @ ''..'' @ q") auto
  from Cons.IH [OF refl] have "\<not> dotdot_free (p @ ''..'' @ q)" .
  then show ?case using Cons.prems br by simp
qed

lemma dotdot_free_Cons: "a \<noteq> CHR ''.'' \<Longrightarrow> dotdot_free t \<Longrightarrow> dotdot_free (a # t)"
  by (cases t) simp_all

lemma replace_Nil: "old \<noteq> [] \<Longrightarrow> replace [] old new = []"
  by (subst replace.simps) simp

lemma replace_dotdot_one: "replace [a] ''..'' [] = [a]"
  by (subst replace.simps) (simp add: replace_Nil)

lemma replace_dotdot_hit: "replace (CHR ''.'' # CHR ''.'' # r) ''..'' [] = replace r ''..'' []"
  by (subst replace.simps) simp

lemma replace_dotdot_miss:
  "\<not> (a = CHR ''.'' \<and> b = CHR ''.'') \<Longrightarrow>
   replace (a # b # r) ''..'' [] = a # replace (b # r) ''..'' []"
  by (subst replace.simps) auto

lemma replace_dotdot_free: "dotdot_free (replace s ''..'' [])"
proof (induction s rule: length_induct)
  case (1 s)
  show ?case
  proof (cases s)
    case Nil
    then show ?thesis by (simp add: replace_Nil)
  next
    case (Cons a t)
    show ?thesis
    proof (cases t)
      case Nil
      then show ?thesis using Cons by (simp add: replace_dotdot_one)
    next
      case (Cons b r)
      note s = \<open>s = a # t\<close> Cons
      have ih_t: "dotdot_free (replace (b # r) ''..'' [])" using 1 s by simp
      have ih_r: "dotdot_free (replace r ''..'' [])" using 1 s by simp
      consider (hit) "a = CHR ''.''" "b = CHR ''.''"
        | (dot) "a = CHR ''.''" "b \<noteq> CHR ''.''" | (other) "a \<noteq> CHR ''.''" by blast
      then show ?thesis
      proof cases
        case hit
        then show ?thesis using ih_r s by (simp add: replace_dotdot_hit)
      next
        case dot
        have "replace (b # r) ''..'' [] = b # replace r ''..'' []"
        proof (cases r)
          case Nil
          then show ?thesis by (simp add: replace_dotdot_one replace_Nil)
        next
          case (Cons c r')
          then show ?thesis using dot by (simp add: replace_dotdot_miss)
        qed
        with ih_t dot show ?thesis using s by (simp add: replace_dotdot_miss)
      next
        case other
        then show ?thesis using ih_t s by (simp add: replace_dotdot_miss dotdot_free_Cons)
      qed
    qed
  qed
qed

lemma replace_char: "replace s [c] [d] = map (\<lambda>x. if x = c then d else x) s"
proof (induction s)
  case Nil
  then show ?case by (simp add: replace_Nil)
next
  case (Cons a s)
  show ?case by (subst replace.simps) (simp add: Cons)
qed

lemma dotdot_free_map:
  assumes "\<And>x. (g x = CHR ''.'') = (x = CHR ''.'')"
  shows "dotdot_free (map g s) = dotdot_free s"
  by (induction s rule: dotdot_free.induct) (simp_all add: assms)

lemma safe_name_dotdot_free: "dotdot_free (safe_name fname)"
  unfolding safe_name_def replace_char
  by (subst dotdot_free_map) (auto simp: replace_dotdot_free)

lemma safe_name_no_slash: "CHR ''/'' \<notin> set (safe_name fname)"
  unfolding safe_name_def replace_char by auto

lemma safe_name_no_dotdot: "\<not> (\<exists>p q. safe_name fname = p @ ''..'' @ q)"
  using dotdot_free_no_infix safe_name_dotdot_free by blast

lemma split_on_not_Nil: "split_on c s \<noteq> []"
  by (induction s) (auto split: list.splits)

lemma split_on_snoc:
  "c \<notin> set w \<Longrightarrow> split_on c (s @ c # w) = split_on c s @ [w]"
proof (induction s)
  case Nil
  have "split_on c w = [w]" using Nil by (induction w) auto
  then show ?case by simp
next
  case (Cons a s)
  then show ?case using split_on_not_Nil [of c s] by (auto split: list.splits)
qed

lemma sep_join_snoc: "ws \<noteq> [] \<Longrightarrow> sep_join (ws @ [w]) = sep_join ws @ ''/'' @ w"
  by (induction ws rule: sep_join.induct) simp_all

lemma sep_join_snoc_not_Nil: "w \<noteq> [] \<Longrightarrow> sep_join (ws @ [w]) \<noteq> []"
  by (cases "ws = []") (simp_all add: sep_join_snoc)

lemma join_plain:
  "take 1 b \<noteq> ''/'' \<Longrightarrow> a \<noteq> [] \<Longrightarrow> last a \<noteq> CHR ''/'' \<Longrightarrow> join a b = a @ ''/'' @ b"
  by (simp add: join_def)

lemma take1_no_slash: "CHR ''/'' \<notin> set w \<Longrightarrow> take 1 w \<noteq> ''/''"
  by (cases w) auto

text \<open>The upload directory ends with the component uploads.\<close>

lemma upload_dir_shape: "\<exists>j. j \<noteq> [] \<and> upload_dir env = j @ ''/uploads''"
proof -
  let ?j = "join (module_dir env) ''..''"
  have j: "?j \<noteq> [] \<and> last ?j = CHR ''.''" by (simp add: join_def)
  then have "join ?j ''uploads'' = ?j @ ''/uploads''" by (simp add: join_plain)
  with j show ?thesis unfolding upload_dir_def by blast
qed

lemma abspath_anchored: "abspath cwd path = normpath (anchored cwd path)"
  by (simp add: abspath_def anchored_def)

lemma anchored_append:
  assumes "path \<noteq> []"
  shows "anchored cwd (path @ rest) = anchored cwd path @ rest"
proof -
  from assms have "take 1 (path @ rest) = take 1 path" by (cases path) auto
  then show ?thesis by (auto simp: anchored_def join_def)
qed

lemma anchored_suffix: "\<exists>pre. anchored cwd path = pre @ path"
  by (auto simp: anchored_def join_def intro: exI [of _ "[]"])

lemma initial_slashes_append:
  "3 \<le> length p \<Longrightarrow> initial_slashes_of (p @ rest) = initial_slashes_of p"
  by (simp add: initial_slashes_of_def)

lemma normpath_child:
  assumes y: "p = y @ ''/uploads''" and w: "CHR ''/'' \<notin> set w" and nd: "w \<noteq> ''..''"
  shows "normpath (p @ ''/'' @ w) = (if w = [] \<or> w = ''.'' then normpath p else normpath p @ ''/'' @ w)"
proof -
  let ?n = "initial_slashes_of p"
  let ?step = "normpath_step (?n \<noteq> 0)"
  have len: "3 \<le> length p" by (simp add: y)
  have n: "initial_slashes_of (p @ ''/'' @ w) = ?n" using len by (rule initial_slashes_append)
  have "split_on (CHR ''/'') p = split_on (CHR ''/'') y @ [''uploads'']"
    unfolding y using split_on_snoc [of "CHR ''/''" "''uploads''" y] by simp
  then have comps: "foldl ?step [] (split_on (CHR ''/'') p) =
      foldl ?step [] (split_on (CHR ''/'') y) @ [''uploads'']"
    by (simp add: normpath_step_def)
  let ?N = "foldl ?step [] (split_on (CHR ''/'') p)"
  have N: "?N \<noteq> []" and sj: "sep_join ?N \<noteq> []"
    unfolding comps by (simp_all add: sep_join_snoc_not_Nil)
  have sp: "split_on (CHR ''/'') (p @ ''/'' @ w) = split_on (CHR ''/'') p @ [w]"
    using split_on_snoc [OF w, of p] by simp
  have fold: "foldl ?step [] (split_on (CHR ''/'') (p @ ''/'' @ w)) = ?step ?N w"
    unfolding sp by simp
  have np: "normpath p = replicate ?n (CHR ''/'') @ sep_join ?N"
    using sj len by (auto simp: normpath_def Let_def)
  show ?thesis
  proof (cases "w = [] \<or> w = ''.''")
    case True
    then have "?step ?N w = ?N" by (auto simp: normpath_step_def)
    then have "normpath (p @ ''/'' @ w) = replicate ?n (CHR ''/'') @ sep_join ?N"
      using sj unfolding normpath_def n fold Let_def by simp
    then show ?thesis using True np by simp
  next
    case False
    then have "?step ?N w = ?N @ [w]" using nd by (auto simp: normpath_step_def)
    then have "normpath (p @ ''/'' @ w) = replicate ?n (CHR ''/'') @ sep_join (?N @ [w])"
      using sj N unfolding normpath_def n fold Let_def by (simp add: sep_join_snoc)
    then show ?thesis using False np N by (simp add: sep_join_snoc)
  qed
qed

lemma saved_path_eq:
  "saved_path env fname =
     (if safe_name fname = [] \<or> safe_name fname = ''.''
      then abspath (getcwd env) (upload_dir env)
      else abspath (getcwd env) (upload_dir env) @ ''/'' @ safe_name fname)"
proof -
  let ?w = "safe_name fname"
  obtain j where j: "j \<noteq> []" "upload_dir env = j @ ''/uploads''"
    using upload_dir_shape by blast
  have w: "CHR ''/'' \<notin> set ?w" by (rule safe_name_no_slash)
  have nd: "?w \<noteq> ''..''" using safe_name_no_dotdot [of fname] by (metis append_Nil append_Nil2)
  have ud: "upload_dir env \<noteq> []" "last (upload_dir env) \<noteq> CHR ''/''" by (simp_all add: j)
  have jn: "join (upload_dir env) ?w = upload_dir env @ ''/'' @ ?w"
    using take1_no_slash [OF w] ud by (rule join_plain)
  have a1: "abspath (getcwd env) (upload_dir env) = normpath (anchored (getcwd env) (upload_dir env))"
    by (rule abspath_anchored)
  have "saved_path env fname = normpath (anchored (getcwd env) (upload_dir env @ ''/'' @ ?w))"
    unfolding saved_path_def jn by (rule abspath_anchored)
  also have "anchored (getcwd env) (upload_dir env @ ''/'' @ ?w) =
      anchored (getcwd env) (upload_dir env) @ ''/'' @ ?w"
    using ud(1) by (rule anchored_append)
  finally have a2: "saved_path env fname =
      normpath (anchored (getcwd env) (upload_dir env) @ ''/'' @ ?w)" .
  obtain pre where "anchored (getcwd env) (upload_dir env) = pre @ upload_dir env"
    using anchored_suffix by blast
  then have y: "anchored (getcwd env) (upload_dir env) = (pre @ j) @ ''/uploads''"
    by (simp add: j)
  show ?thesis unfolding a1 a2 by (rule normpath_child [OF y w nd])
qed

text \<open>
  The sanitised name holds no slash and no two dots in a row, and the saved path is the
  upload directory itself or the entry of that name directly inside it.
\<close>

lemma upload_path_contained:
  "CHR ''/'' \<notin> set (safe_name fname) \<and> \<not> (\<exists>p q. safe_name fname = p @ ''..'' @ q) \<and>
   saved_path env fname =
     (if safe_name fname = [] \<or> safe_name fname = ''.''
      then abspath (getcwd env) (upload_dir env)
      else abspath (getcwd env) (upload_dir env) @ ''/'' @ safe_name fname)"
  using safe_name_no_slash safe_name_no_dotdot saved_path_eq by blast

text \<open>
  Once the upload directory exists and the saved path opens for writing, the bytes are on
  disk at that path, whatever happens later in the request.
\<close>

lemma predict_scan_persists:
  assumes "os_error env (upload_dir env) = None"
    and "open_wb env (saved_path env (effective_filename rq file)) = None"
  shows "files (snd (predict_scan env denv menv rq st file cu))
           (saved_path env (effective_filename rq file)) = Some (contents file)"
  using assms
  by (auto simp: predict_scan_def Let_def split: sum.splits option.splits prod.splits)

text \<open>
  Claim C5.  The claim promises, for every uploaded filename, that the bytes are persisted
  to a path inside the upload directory.  For the filename \<open>..\<close> the sanitised name is
  empty, the saved path is the upload directory itself, opening it for writing raises, and
  nothing is persisted.
\<close>

theorem predict_scan_dotdot_filename:
  "safe_name ''..'' = [] \<and>
   saved_path demo_main_env ''..'' = ''/srv/oncoscan_webapp/uploads'' \<and>
   abspath (getcwd demo_main_env) (upload_dir demo_main_env) = ''/srv/oncoscan_webapp/uploads'' \<and>
   predict_scan demo_main_env plain_decode_env demo_model_env demo_request empty_server
     dotdot_upload doc_identity = (Inl IsADirectoryError, empty_server)"
proof -
  have a: "safe_name ''..'' = []"
    and b: "saved_path demo_main_env ''..'' = ''/srv/oncoscan_webapp/uploads''"
    and c: "abspath (getcwd demo_main_env) (upload_dir demo_main_env) =
              ''/srv/oncoscan_webapp/uploads''"
    by code_simp+
  have "effective_filename demo_request dotdot_upload = ''..''"
    by (simp add: effective_filename_def dotdot_upload_def)
  moreover have "os_error demo_main_env p = None" for p
    by (simp add: demo_main_env_def)
  moreover have "open_wb demo_main_env ''/srv/oncoscan_webapp/uploads'' = Some IsADirectoryError"
    unfolding open_wb_def c by simp
  ultimately have "predict_scan demo_main_env plain_decode_env demo_model_env demo_request
      empty_server dotdot_upload doc_identity = (Inl IsADirectoryError, empty_server)"
    by (simp add: predict_scan_def b)
  with a b c show ?thesis by simp
qed

end
